theory Spec2Isabelle
  imports Main "HOL-Library.Word" "HOL-Library.Multiset"
begin

unbundle bit_operations_syntax

section \<open>Go strings and the string helpers the driver calls\<close>

text \<open>
  A Go string is a sequence of bytes; it is modelled as \<^typ>\<open>string\<close>, whose characters
  are bytes. \<open>len\<close> is \<^const>\<open>length\<close>, slicing \<open>s[:n]\<close> is \<^const>\<open>take\<close> and
  \<open>s[n:]\<close> is \<^const>\<open>drop\<close>.
\<close>

text \<open>\<open>strings.HasPrefix\<close> and \<open>strings.TrimPrefix\<close>.\<close>

definition HasPrefix :: "string \<Rightarrow> string \<Rightarrow> bool" where
  "HasPrefix s pre = (length pre \<le> length s \<and> take (length pre) s = pre)"

definition TrimPrefix :: "string \<Rightarrow> string \<Rightarrow> string" where
  "TrimPrefix s pre = (if HasPrefix s pre then drop (length pre) s else s)"

text \<open>\<open>strings.IndexByte\<close>: the index of the first occurrence, \<open>None\<close> for Go's \<open>-1\<close>.\<close>

fun IndexByte :: "string \<Rightarrow> char \<Rightarrow> nat option" where
  "IndexByte [] c = None"
| "IndexByte (x # xs) c = (if x = c then Some 0 else map_option Suc (IndexByte xs c))"

text \<open>
  \<open>strings.SplitN(s, sep, n)\<close> for a one-byte separator and \<open>n \<ge> 0\<close>: no result for
  \<open>n = 0\<close>; otherwise at most \<open>n\<close> substrings, the last one being the unsplit remainder.
\<close>

fun SplitN :: "string \<Rightarrow> char \<Rightarrow> nat \<Rightarrow> string list" where
  "SplitN s sep 0 = []"
| "SplitN s sep (Suc 0) = [s]"
| "SplitN s sep (Suc (Suc n)) =
     (case IndexByte s sep of
        None \<Rightarrow> [s]
      | Some m \<Rightarrow> take m s # SplitN (drop (Suc m) s) sep (Suc n))"

text \<open>\<open>strings.Split(s, sep)\<close> for a one-byte separator: every separator splits.\<close>

fun Split :: "string \<Rightarrow> char \<Rightarrow> string list" where
  "Split [] sep = [[]]"
| "Split (x # xs) sep =
     (if x = sep then [] # Split xs sep
      else (case Split xs sep of
              [] \<Rightarrow> [[x]]
            | p # ps \<Rightarrow> (x # p) # ps))"

text \<open>\<open>strings.Join\<close>.\<close>

fun Join :: "string list \<Rightarrow> string \<Rightarrow> string" where
  "Join [] sep = []"
| "Join [x] sep = x"
| "Join (x # y # ys) sep = x @ sep @ Join (y # ys) sep"

section \<open>The scanner behind \<open>fmt.Sscanf\<close>\<close>

text \<open>
  \<open>GetDeviceAttributes\<close> parses the network path with
  \<open>fmt.Sscanf(network, "projects/%d/networks/%s", &projectNumber, &name)\<close>.
  The scanner of Go's \<open>fmt\<close> package reads its input rune by rune. The functions below
  follow \<open>fmt/scan.go\<close> for this call: literal text of the format must match the input
  exactly, \<open>%d\<close> skips leading blanks, takes an optional sign and a run of the characters
  \<open>0123456789_\<close> which \<open>strconv.ParseInt(tok, 10, 64)\<close> must accept, and \<open>%s\<close> skips
  leading blanks and takes the next blank-delimited word. Input left over after the
  last verb is ignored.
\<close>

type_synonym rune = int

definition RuneError :: rune where
  "RuneError = 0xFFFD"

definition cont :: "int \<Rightarrow> bool" where
  "cont b = (0x80 \<le> b \<and> b \<le> 0xBF)"

text \<open>
  \<open>utf8.DecodeRune\<close> on the bytes of the input: the rune and the number of bytes it takes.
  An invalid or incomplete encoding is \<open>RuneError\<close> of width 1; the empty input is
  \<open>RuneError\<close> of width 0.
\<close>

fun DecodeRune :: "int list \<Rightarrow> rune \<times> nat" where
  "DecodeRune [] = (RuneError, 0)"
| "DecodeRune (b0 # bs) =
     (if b0 < 0x80 then (b0, 1)
      else if 0xC2 \<le> b0 \<and> b0 \<le> 0xDF then
        (case bs of
           b1 # _ \<Rightarrow>
             if cont b1 then ((b0 - 0xC0) * 64 + (b1 - 0x80), 2) else (RuneError, 1)
         | _ \<Rightarrow> (RuneError, 1))
      else if 0xE0 \<le> b0 \<and> b0 \<le> 0xEF then
        (case bs of
           b1 # b2 # _ \<Rightarrow>
             if (if b0 = 0xE0 then 0xA0 else 0x80) \<le> b1
                \<and> b1 \<le> (if b0 = 0xED then 0x9F else 0xBF) \<and> cont b2
             then ((b0 - 0xE0) * 4096 + (b1 - 0x80) * 64 + (b2 - 0x80), 3)
             else (RuneError, 1)
         | _ \<Rightarrow> (RuneError, 1))
      else if 0xF0 \<le> b0 \<and> b0 \<le> 0xF4 then
        (case bs of
           b1 # b2 # b3 # _ \<Rightarrow>
             if (if b0 = 0xF0 then 0x90 else 0x80) \<le> b1
                \<and> b1 \<le> (if b0 = 0xF4 then 0x8F else 0xBF) \<and> cont b2 \<and> cont b3
             then ((b0 - 0xF0) * 262144 + (b1 - 0x80) * 4096 + (b2 - 0x80) * 64
                   + (b3 - 0x80), 4)
             else (RuneError, 1)
         | _ \<Rightarrow> (RuneError, 1))
      else (RuneError, 1))"

text \<open>
  \<open>ss.getRune\<close>: the next rune of a non-empty input with the input after it. The first
  component tells whether the bytes read were a valid encoding.
\<close>

definition getRune :: "string \<Rightarrow> bool \<times> rune \<times> string" where
  "getRune s =
     (let (r, n) = DecodeRune (map of_char (take 4 s))
      in (\<not> (r = RuneError \<and> n \<le> 1), r, drop (max 1 n) s))"

text \<open>\<open>fmt.isSpace\<close>: the table \<open>space\<close> of \<open>fmt/scan.go\<close>.\<close>

definition isSpace :: "rune \<Rightarrow> bool" where
  "isSpace r =
     ((0x0009 \<le> r \<and> r \<le> 0x000d) \<or> r = 0x0020 \<or> r = 0x0085 \<or> r = 0x00a0 \<or> r = 0x1680
      \<or> (0x2000 \<le> r \<and> r \<le> 0x200a) \<or> (0x2028 \<le> r \<and> r \<le> 0x2029) \<or> r = 0x202f
      \<or> r = 0x205f \<or> r = 0x3000)"

text \<open>
  \<open>ss.advance\<close> over a stretch of the format that holds neither a blank nor a verb:
  every byte must be the next byte of the input. The result is the input left, or
  \<open>None\<close> for the errors "input does not match format" and "unexpected EOF".
\<close>

fun advance :: "string \<Rightarrow> string \<Rightarrow> string option" where
  "advance [] s = Some s"
| "advance (f # fs) [] = None"
| "advance (f # fs) (c # cs) = (if f = c then advance fs cs else None)"

text \<open>
  \<open>ss.SkipSpace\<close> as \<open>Sscanf\<close> runs it (\<open>nlIsSpace\<close> is false): blanks are skipped, a newline
  is the error "unexpected newline".
\<close>

function SkipSpace :: "string \<Rightarrow> string option" where
  "SkipSpace s =
     (if s = [] then Some s
      else (case getRune s of
              (_, r, rest) \<Rightarrow>
                if r = 0x0A then None
                else if isSpace r then SkipSpace rest
                else Some s))"
  by pat_completeness auto
termination
  by (relation "measure length") (auto simp: getRune_def split: prod.splits)

text \<open>\<open>ss.accept\<close> of one character out of a set, and the loop \<open>for s.accept(digits) {}\<close>.\<close>

definition accept :: "string \<Rightarrow> string \<Rightarrow> string \<times> string" where
  "accept ok s =
     (case s of
        [] \<Rightarrow> ([], s)
      | c # cs \<Rightarrow> if c \<in> set ok then ([c], cs) else ([], s))"

fun acceptAll :: "string \<Rightarrow> string \<Rightarrow> string \<times> string" where
  "acceptAll ok [] = ([], [])"
| "acceptAll ok (c # cs) =
     (if c \<in> set ok then (case acceptAll ok cs of (tok, rest) \<Rightarrow> (c # tok, rest))
      else ([], c # cs))"

text \<open>
  \<open>strconv.ParseInt(tok, 10, 64)\<close> on a token made of an optional sign and characters of
  \<open>0123456789_\<close>: an underscore is a syntax error in base 10, a value outside the range
  of \<open>int64\<close> is a range error.
\<close>

definition digitVal :: "char \<Rightarrow> int" where
  "digitVal c = of_char c - 48"

definition isDigit :: "char \<Rightarrow> bool" where
  "isDigit c = (c \<in> set ''0123456789'')"

fun decimal :: "int \<Rightarrow> string \<Rightarrow> int" where
  "decimal acc [] = acc"
| "decimal acc (c # cs) = decimal (acc * 10 + digitVal c) cs"

definition ParseInt64 :: "string \<Rightarrow> int option" where
  "ParseInt64 tok =
     (let neg = (tok \<noteq> [] \<and> hd tok = CHR ''-'');
          ds = (if tok \<noteq> [] \<and> hd tok \<in> {CHR ''+'', CHR ''-''} then tl tok else tok)
      in if ds = [] \<or> \<not> list_all isDigit ds then None
         else (let v = (if neg then - decimal 0 ds else decimal 0 ds)
               in if - (2 ^ 63) \<le> v \<and> v < 2 ^ 63 then Some v else None))"

text \<open>\<open>ss.scanInt\<close> for the verb \<open>%d\<close> into an \<open>int64\<close>.\<close>

definition scanInt :: "string \<Rightarrow> (int \<times> string) option" where
  "scanInt s =
     (case SkipSpace s of
        None \<Rightarrow> None
      | Some s1 \<Rightarrow>
          if s1 = [] then None
          else (case accept ''+-'' s1 of
                  (sign, s2) \<Rightarrow>
                    if s2 = [] then None
                    else (case acceptAll ''0123456789_'' s2 of
                            (ds, s3) \<Rightarrow>
                              if ds = [] then None
                              else (case ParseInt64 (sign @ ds) of
                                      None \<Rightarrow> None
                                    | Some i \<Rightarrow> Some (i, s3)))))"

text \<open>
  \<open>ss.token(true, notSpace)\<close>: the runes up to the next blank. The buffer is written with
  \<open>writeRune\<close>, so a valid rune is copied as it stands and an invalid byte becomes the
  encoding of \<open>RuneError\<close>.
\<close>

function token :: "string \<Rightarrow> string \<times> string" where
  "token s =
     (if s = [] then ([], [])
      else (case getRune s of
              (valid, r, rest) \<Rightarrow>
                if isSpace r then ([], s)
                else (case token rest of
                        (tok, s') \<Rightarrow>
                          ((if valid then take (length s - length rest) s
                            else [CHR 0xEF, CHR 0xBF, CHR 0xBD]) @ tok, s'))))"
  by pat_completeness auto
termination
  by (relation "measure length") (auto simp: getRune_def split: prod.splits)

text \<open>\<open>ss.convertString\<close> for the verb \<open>%s\<close>.\<close>

definition convertString :: "string \<Rightarrow> (string \<times> string) option" where
  "convertString s =
     (case SkipSpace s of
        None \<Rightarrow> None
      | Some s1 \<Rightarrow> if s1 = [] then None else Some (token s1))"

text \<open>
  The call \<open>fmt.Sscanf(s, "projects/%d/networks/%s", &projectNumber, &name)\<close>:
  \<open>None\<close> when it returns an error, the two values scanned otherwise.
\<close>

definition Sscanf_network :: "string \<Rightarrow> (int \<times> string) option" where
  "Sscanf_network s =
     (case advance ''projects/'' s of
        None \<Rightarrow> None
      | Some s1 \<Rightarrow>
          (case scanInt s1 of
             None \<Rightarrow> None
           | Some (projectNumber, s2) \<Rightarrow>
               (case advance ''/networks/'' s2 of
                  None \<Rightarrow> None
                | Some s3 \<Rightarrow>
                    (case convertString s3 of
                       None \<Rightarrow> None
                     | Some (name, _) \<Rightarrow> Some (projectNumber, name)))))"

section \<open>Cloud provider: GCE device attributes\<close>

text \<open>\<open>cloudprovider.DeviceIdentifiers\<close> (pkg/cloudprovider/cloud.go).\<close>

record DeviceIdentifiers =
  MAC :: string
  PCIAddress :: string
  DeviceName :: string

text \<open>
  \<open>resourceapi.DeviceAttribute\<close>: the driver sets either the string or the integer
  value. The attribute set is a Go map from qualified names to attributes; the \<open>nil\<close>
  map that \<open>GetDeviceAttributes\<close> returns on a parse failure is \<open>None\<close>.
\<close>

datatype DeviceAttribute = StringValue string | IntValue int

type_synonym attributes = "string \<rightharpoonup> DeviceAttribute"

definition GCEAttrPrefix :: string where
  "GCEAttrPrefix = ''gce.dra.net''"

definition AttrGCEBlock :: string where
  "AttrGCEBlock = GCEAttrPrefix @ ''/'' @ ''block''"

definition AttrGCESubBlock :: string where
  "AttrGCESubBlock = GCEAttrPrefix @ ''/'' @ ''subBlock''"

definition AttrGCEHost :: string where
  "AttrGCEHost = GCEAttrPrefix @ ''/'' @ ''host''"

definition AttrGCENetworkName :: string where
  "AttrGCENetworkName = GCEAttrPrefix @ ''/'' @ ''networkName''"

definition AttrGCENetworkProjectNumber :: string where
  "AttrGCENetworkProjectNumber = GCEAttrPrefix @ ''/'' @ ''networkProjectNumber''"

definition AttrGCEIPAliases :: string where
  "AttrGCEIPAliases = GCEAttrPrefix @ ''/'' @ ''ipAliases''"

definition AttrGCEMachineType :: string where
  "AttrGCEMachineType = GCEAttrPrefix @ ''/'' @ ''machineType''"

text \<open>\<open>gceNetworkInterface\<close> and \<open>GCEInstance\<close> (pkg/cloudprovider/gce/gce.go).\<close>

record gceNetworkInterface =
  IPv4 :: string
  IPv6 :: "string list"
  Mac :: string
  MTU :: int
  Network :: string
  IPAliases :: "string list"

record GCEInstance =
  Name :: string
  Type :: string
  AcceleratorProtocol :: string
  Interfaces :: "gceNetworkInterface list"
  Topology :: string

text \<open>
  The loop of \<open>GetDeviceAttributes\<close> over \<open>g.Interfaces\<close>: the first record whose MAC
  equals the identifier's, \<open>None\<close> when \<open>interfaceForMacFound\<close> stays false.
\<close>

fun interfaceForMac :: "gceNetworkInterface list \<Rightarrow> string \<Rightarrow> gceNetworkInterface option" where
  "interfaceForMac [] mac = None"
| "interfaceForMac (cloudInterface # rest) mac =
     (if Mac cloudInterface = mac then Some cloudInterface else interfaceForMac rest mac)"

text \<open>
  The first part of \<open>GetDeviceAttributes\<close>: the machine type and, when the topology
  splits into three parts, block, sub-block and host.
\<close>

definition topologyAttributes :: "GCEInstance \<Rightarrow> attributes" where
  "topologyAttributes g =
     (let attributes = [AttrGCEMachineType \<mapsto> StringValue (Type g)]
      in if Topology g \<noteq> [] then
           (let topologyParts = SplitN (TrimPrefix (Topology g) ''/'') (CHR ''/'') 3
            in if length topologyParts = 3 then
                 attributes(AttrGCEBlock \<mapsto> StringValue (topologyParts ! 0),
                            AttrGCESubBlock \<mapsto> StringValue (topologyParts ! 1),
                            AttrGCEHost \<mapsto> StringValue (topologyParts ! 2))
               else attributes)
         else attributes)"

definition GetDeviceAttributes :: "GCEInstance \<Rightarrow> DeviceIdentifiers \<Rightarrow> attributes option" where
  "GetDeviceAttributes g ident =
     (let attributes = topologyAttributes g
      in if MAC ident = [] then Some attributes
         else (case interfaceForMac (Interfaces g) (MAC ident) of
                 None \<Rightarrow> Some attributes
               | Some ifc \<Rightarrow>
                   (let attributes =
                          (if length (IPAliases ifc) > 0
                           then attributes(AttrGCEIPAliases \<mapsto> StringValue (Join (IPAliases ifc) '',''))
                           else attributes)
                    in (case Sscanf_network (Network ifc) of
                          None \<Rightarrow> None
                        | Some (projectNumber, name) \<Rightarrow>
                            Some (attributes(AttrGCENetworkName \<mapsto> StringValue name,
                                             AttrGCENetworkProjectNumber \<mapsto> IntValue projectNumber))))))"

text \<open>
  The strict pattern of the specification, \<open>projects/<digits>/networks/<name>\<close>: the
  literal \<open>projects/\<close>, one or more decimal digits, the literal \<open>/networks/\<close> and a
  non-empty name. It is written from the specification's words, to be compared with
  what \<open>Sscanf_network\<close> accepts.
\<close>

definition strictNetworkPath :: "string \<Rightarrow> bool" where
  "strictNetworkPath s =
     (case advance ''projects/'' s of
        None \<Rightarrow> False
      | Some s1 \<Rightarrow>
          (case acceptAll ''0123456789'' s1 of
             (ds, s2) \<Rightarrow>
               ds \<noteq> [] \<and>
               (case advance ''/networks/'' s2 of
                  None \<Rightarrow> False
                | Some name \<Rightarrow> name \<noteq> [])))"

section \<open>Attribute resolver: short names\<close>

text \<open>
  Modelled from the spec: the substring after the final \<open>/\<close> of a path; the whole path
  when it holds no \<open>/\<close>, the empty string when it ends in \<open>/\<close>.
\<close>

fun lastSegment :: "string \<Rightarrow> string" where
  "lastSegment [] = []"
| "lastSegment (c # cs) =
     (if CHR ''/'' \<in> set cs then lastSegment cs
      else if c = CHR ''/'' then cs
      else c # cs)"

text \<open>
  Modelled from the spec: \<open>getLastSegmentAndTruncate\<close> (the specification's
  \<open>shortName\<close>) is not among the sources, only its test \<open>Test_getLastSegmentAndTruncate\<close>
  is. The specification: return the substring after the final \<open>/\<close> (empty if the input
  ends in \<open>/\<close>), then truncate to \<open>maxLength\<close> by raw length. The length is taken as a
  natural number: neither the specification nor the test says what a negative
  \<open>maxLength\<close> does.
\<close>

definition getLastSegmentAndTruncate :: "string \<Rightarrow> nat \<Rightarrow> string" where
  "getLastSegmentAndTruncate s maxLength =
     (let seg = lastSegment s
      in if length seg > maxLength then take maxLength seg else seg)"

section \<open>VRF table allocator\<close>

text \<open>
  \<open>hash/fnv\<close>'s \<open>New32a\<close>, \<open>Write\<close> and \<open>Sum32\<close>: the 32-bit FNV-1a hash. Every byte is
  XOR-ed into the hash, which is then multiplied by the FNV prime, modulo \<open>2^32\<close>.
\<close>

definition offset32 :: "32 word" where
  "offset32 = 2166136261"

definition prime32 :: "32 word" where
  "prime32 = 16777619"

definition fnv32a :: "string \<Rightarrow> 32 word" where
  "fnv32a s = fold (\<lambda>c h. (h XOR of_char c) * prime32) s offset32"

text \<open>
  Modelled from the spec: \<open>apis.VRFConfig\<close>, whose declaration is not among the sources, is
  a name and a table. \<open>Default\<close> tests the table against \<open>nil\<close> and stores a pointer to an
  \<open>int\<close>: the table is \<open>None\<close> when it is \<open>nil\<close>.
\<close>

record VRFConfig =
  VRFName :: string
  VRFTable :: "int option"

text \<open>
  \<open>VRFConfig.Default\<close> (pkg/apis/defaults.go). The constant \<open>VRFTableOffset\<close> of the
  package is declared outside the sources at hand; it is the first argument. The sum
  \<open>(h.Sum32() % 1000) + VRFTableOffset\<close> is computed on \<open>uint32\<close> and converted to \<open>int\<close>
  (of 64 bits, so the conversion keeps the value).
\<close>

definition VRFConfig_Default :: "32 word \<Rightarrow> VRFConfig \<Rightarrow> VRFConfig" where
  "VRFConfig_Default VRFTableOffset c =
     (if VRFTable c = None \<and> VRFName c \<noteq> [] then
        (let h = fnv32a (VRFName c);
             tableID = uint ((h mod 1000) + VRFTableOffset)
         in c\<lparr>VRFTable := Some tableID\<rparr>)
      else c)"

section \<open>Errors\<close>

text \<open>
  Go's \<open>error\<close> values as the driver builds and inspects them: a \<open>syscall.Errno\<close>, a
  \<open>*net.ParseError\<close> with its type and text, an error made by \<open>fmt.Errorf\<close>, and the error
  \<open>errors.Join\<close> returns. Of a \<open>fmt.Errorf\<close> error the model keeps the format string
  (written without its quote characters) and the error wrapped by \<open>%w\<close>, if any; an
  error formatted with \<open>%v\<close> is not wrapped.
\<close>

datatype error =
    Errno int
  | ParseError string string
  | Errorf string "error option"
  | JoinError "error list"

definition EEXIST :: error where
  "EEXIST = Errno 17"

text \<open>
  \<open>errors.Is\<close>: the error itself or an error of its chain (\<open>Unwrap() error\<close> of a wrapping
  error, \<open>Unwrap() []error\<close> of a joined one) is the target.
\<close>

fun errors_Is :: "error \<Rightarrow> error \<Rightarrow> bool" where
  "errors_Is (Errorf f (Some e)) target =
     (Errorf f (Some e) = target \<or> errors_Is e target)"
| "errors_Is (JoinError es) target =
     (JoinError es = target \<or> (\<exists>e \<in> set es. errors_Is e target))"
| "errors_Is err target = (err = target)"

text \<open>\<open>errors.Join\<close> of a list without \<open>nil\<close> entries: \<open>nil\<close> when the list is empty.\<close>

definition errors_Join :: "error list \<Rightarrow> error option" where
  "errors_Join errs = (if errs = [] then None else Some (JoinError errs))"

section \<open>Configuration records and the Go library the engine calls\<close>

text \<open>
  Modelled from the spec: \<open>apis.RouteConfig\<close>, \<open>apis.RuleConfig\<close> and \<open>apis.NeighborConfig\<close>,
  whose declarations are not among the sources: a route is a destination, a gateway, a
  source, a scope and a table; a rule is a priority, a table and an optional source and
  destination; a neighbour is a destination and a hardware address. These are the fields
  the driver and the validation read. Addresses are strings; the scope is an unsigned
  byte (the driver converts it to \<open>netlink.Scope\<close> and to \<open>int\<close>); tables and priorities are
  \<open>int\<close>.
\<close>

record RouteConfig =
  Destination :: string
  Gateway :: string
  Source :: string
  Scope :: "8 word"
  Table :: int



definition RT_SCOPE_UNIVERSE :: "8 word" where
  "RT_SCOPE_UNIVERSE = 0"

definition RT_SCOPE_LINK :: "8 word" where
  "RT_SCOPE_LINK = 253"

text \<open>
  An address as \<open>netip.ParseAddr\<close> returns it: the bytes of an IPv4 (4 bytes) or of an
  IPv6 address (16 bytes). An \<open>IPNet\<close> is the masked address with the number of
  leading ones of its mask.
\<close>

datatype Addr = Addr4 "int list" | Addr6 "int list"

fun BitLen :: "Addr \<Rightarrow> int" where
  "BitLen (Addr4 _) = 32"
| "BitLen (Addr6 _) = 128"

record IPNet =
  NetIP :: Addr
  MaskOnes :: int

text \<open>
  The functions of Go's standard library whose code the engine does not contain are
  arguments of the model: \<open>netip.ParseAddr\<close> (the address and its zone, \<open>None\<close> for an
  error), \<open>net.ParseMAC\<close> (the bytes, \<open>None\<close> for an error) and \<open>slices.SortFunc\<close> (the
  slice after the call, for a comparison function and the slice before it).
\<close>

record stdlib =
  ParseAddr :: "string \<Rightarrow> (Addr \<times> string) option"
  ParseMAC :: "string \<Rightarrow> int list option"
  SortFunc :: "(RouteConfig \<Rightarrow> RouteConfig \<Rightarrow> int) \<Rightarrow> RouteConfig list \<Rightarrow> RouteConfig list"

text \<open>
  What \<open>slices.SortFunc\<close> promises for a comparison that is a strict weak ordering: the
  slice is rearranged, and no element is followed by one that compares less. The sort
  is not stable.
\<close>

definition SortFunc_contract ::
  "(('a \<Rightarrow> 'a \<Rightarrow> int) \<Rightarrow> 'a list \<Rightarrow> 'a list) \<Rightarrow> ('a \<Rightarrow> 'a \<Rightarrow> int) \<Rightarrow> 'a list \<Rightarrow> bool" where
  "SortFunc_contract sf cmp xs =
     (mset (sf cmp xs) = mset xs \<and> sorted_wrt (\<lambda>a b. cmp a b \<le> 0) (sf cmp xs))"

text \<open>\<open>net.ParseIP\<close>: \<open>nil\<close> (\<open>None\<close>) unless the string parses as an address without zone.\<close>

definition ParseIP :: "stdlib \<Rightarrow> string \<Rightarrow> Addr option" where
  "ParseIP lib s =
     (case ParseAddr lib s of
        None \<Rightarrow> None
      | Some (ip, zone) \<Rightarrow> if zone \<noteq> [] then None else Some ip)"

text \<open>\<open>dtoi\<close> of package \<open>net\<close>: decimal to integer, with the number of bytes consumed.\<close>

definition big :: int where
  "big = 0xFFFFFF"

fun dtoi_loop :: "int \<Rightarrow> nat \<Rightarrow> string \<Rightarrow> int \<times> nat \<times> bool" where
  "dtoi_loop n i [] = (n, i, True)"
| "dtoi_loop n i (c # cs) =
     (if isDigit c then
        (let n' = n * 10 + digitVal c
         in if n' \<ge> big then (big, i, False) else dtoi_loop n' (Suc i) cs)
      else (n, i, True))"

definition dtoi :: "string \<Rightarrow> int \<times> nat \<times> bool" where
  "dtoi s =
     (case dtoi_loop 0 0 s of
        (n, i, ok) \<Rightarrow>
          if \<not> ok then (n, i, False)
          else if i = 0 then (0, 0, False)
          else (n, i, True))"

text \<open>\<open>IP.Mask\<close> with \<open>CIDRMask(n, bits)\<close>: the leading \<open>n\<close> bits are kept, the others cleared.\<close>

fun maskBytes :: "int \<Rightarrow> int list \<Rightarrow> int list" where
  "maskBytes n [] = []"
| "maskBytes n (b # bs) =
     (if n \<ge> 8 then b
      else if n \<le> 0 then 0
      else (b div 2 ^ nat (8 - n)) * 2 ^ nat (8 - n)) # maskBytes (n - 8) bs"

fun maskAddr :: "int \<Rightarrow> Addr \<Rightarrow> Addr" where
  "maskAddr n (Addr4 bs) = Addr4 (maskBytes n bs)"
| "maskAddr n (Addr6 bs) = Addr6 (maskBytes n bs)"

text \<open>
  \<open>net.ParseCIDR\<close>: the string must hold a \<open>/\<close>; before it an address without zone, after
  it a decimal prefix length of at most the address's bit length.
\<close>

definition ParseCIDR :: "stdlib \<Rightarrow> string \<Rightarrow> error + (Addr \<times> IPNet)" where
  "ParseCIDR lib s =
     (case IndexByte s (CHR ''/'') of
        None \<Rightarrow> Inl (ParseError ''CIDR address'' s)
      | Some i \<Rightarrow>
          (let addr = take i s; mask = drop (Suc i) s
           in (case ParseAddr lib addr of
                 None \<Rightarrow> Inl (ParseError ''CIDR address'' s)
               | Some (ipAddr, zone) \<Rightarrow>
                   if zone \<noteq> [] then Inl (ParseError ''CIDR address'' s)
                   else (case dtoi mask of
                           (n, j, ok) \<Rightarrow>
                             if \<not> ok \<or> j \<noteq> length mask \<or> n < 0 \<or> n > BitLen ipAddr
                             then Inl (ParseError ''CIDR address'' s)
                             else Inr (ipAddr, \<lparr>NetIP = maskAddr n ipAddr, MaskOnes = n\<rparr>)))))"

section \<open>Validation of the routes\<close>

text \<open>
  The body of the loop of \<open>validateRoutes\<close> (pkg/apis) for the route at index \<open>i\<close>, and the
  loop. A destination is accepted when it parses as a CIDR or, failing that, as an IP
  address.
\<close>

definition validateRoute :: "stdlib \<Rightarrow> nat \<Rightarrow> RouteConfig \<Rightarrow> error list" where
  "validateRoute lib i route =
     (if Destination route = [] then [Errorf ''%s.destination: cannot be empty'' None]
      else (case ParseCIDR lib (Destination route) of
              Inl err \<Rightarrow>
                if ParseIP lib (Destination route) = None
                then [Errorf ''%s.destination: invalid IP or CIDR format %s'' None]
                else []
            | Inr _ \<Rightarrow> []))
     @ (if Scope route \<noteq> RT_SCOPE_UNIVERSE \<and> Scope route \<noteq> RT_SCOPE_LINK
        then [Errorf ''%s.scope: invalid scope %d, only Link (%d) or Universe (%d) allowed'' None]
        else [])
     @ (let scopeIsLink = (Scope route = RT_SCOPE_LINK)
        in if Gateway route \<noteq> [] then
             (if ParseIP lib (Gateway route) = None
              then [Errorf ''%s.gateway: invalid IP address format %s'' None]
              else [])
           else if \<not> scopeIsLink
           then [Errorf ''%s.gateway: must be specified for Universe scope routes'' None]
           else [])
     @ (if Source route \<noteq> [] then
          (if ParseIP lib (Source route) = None
           then [Errorf ''%s.source: invalid IP address format %s'' None]
           else [])
        else [])
     @ (if Table route < 0
        then [Errorf ''%s.table: must be a non-negative integer, got %d'' None]
        else [])"

fun validateRoutes_from :: "stdlib \<Rightarrow> nat \<Rightarrow> RouteConfig list \<Rightarrow> error list" where
  "validateRoutes_from lib i [] = []"
| "validateRoutes_from lib i (route # routes) =
     validateRoute lib i route @ validateRoutes_from lib (Suc i) routes"

definition validateRoutes :: "stdlib \<Rightarrow> RouteConfig list \<Rightarrow> error list" where
  "validateRoutes lib routes = validateRoutes_from lib 0 routes"

section \<open>The netlink interface\<close>

text \<open>
  \<open>netlink.Route\<close>, \<open>netlink.Neigh\<close> and \<open>netlink.Rule\<close>, with the fields the driver sets.
\<close>

record Route =
  LinkIndex :: int
  RouteScope :: "8 word"
  RouteTable :: int
  Dst :: "IPNet option"
  Gw :: "Addr option"
  Src :: "Addr option"

record Neigh =
  NeighLinkIndex :: int
  NeighState :: int
  NeighIP :: Addr
  NeighHardwareAddr :: "int list"

record Rule =
  RulePriority :: int
  RuleTableID :: int
  RuleSrc :: "IPNet option"
  RuleDst :: "IPNet option"


text \<open>
  The kernel, reached through \<open>netns\<close> and \<open>netlink\<close>, is an argument of the model: a
  state \<open>'k\<close> and the calls the engine makes. Getting a namespace handle, a netlink
  handle and a link either fails or returns a descriptor, a handle and the link's
  index; adding a route, a neighbour or a rule returns the kernel's error, if any, and
  the state after the call. Closing handles is not modelled.
\<close>

record 'k netlinkOps =
  GetFromPath :: "'k \<Rightarrow> string \<Rightarrow> error + int"
  NewHandleAt :: "'k \<Rightarrow> int \<Rightarrow> error + int"
  LinkByName :: "'k \<Rightarrow> int \<Rightarrow> string \<Rightarrow> error + int"
  RouteAdd :: "'k \<Rightarrow> int \<Rightarrow> Route \<Rightarrow> error option \<times> 'k"
  NeighAdd :: "'k \<Rightarrow> int \<Rightarrow> Neigh \<Rightarrow> error option \<times> 'k"
  RuleAdd :: "'k \<Rightarrow> int \<Rightarrow> Rule \<Rightarrow> error option \<times> 'k"

text \<open>
  A kernel that records: the same kernel, with the list of the requests it received
  and what it answered to each, in the order of the calls.
\<close>

datatype request = RouteReq Route | NeighReq Neigh | RuleReq Rule

definition logged :: "'k netlinkOps \<Rightarrow> ((request \<times> error option) list \<times> 'k) netlinkOps" where
  "logged ops =
     \<lparr>GetFromPath = (\<lambda>(l, k). GetFromPath ops k),
      NewHandleAt = (\<lambda>(l, k). NewHandleAt ops k),
      LinkByName = (\<lambda>(l, k). LinkByName ops k),
      RouteAdd = (\<lambda>(l, k) nh r.
         case RouteAdd ops k nh r of (res, k') \<Rightarrow> (res, (l @ [(RouteReq r, res)], k'))),
      NeighAdd = (\<lambda>(l, k) nh n.
         case NeighAdd ops k nh n of (res, k') \<Rightarrow> (res, (l @ [(NeighReq n, res)], k'))),
      RuleAdd = (\<lambda>(l, k) nh r.
         case RuleAdd ops k nh r of (res, k') \<Rightarrow> (res, (l @ [(RuleReq r, res)], k')))\<rparr>"

fun routeRequests :: "(request \<times> error option) list \<Rightarrow> Route list" where
  "routeRequests [] = []"
| "routeRequests ((RouteReq r, res) # l) = r # routeRequests l"
| "routeRequests (_ # l) = routeRequests l"

text \<open>An answer that the engine counts as a failure: an error that is not \<open>EEXIST\<close>.\<close>

fun rejected :: "request \<times> error option \<Rightarrow> bool" where
  "rejected (q, None) = False"
| "rejected (q, Some err) = (\<not> errors_Is err EEXIST)"

section \<open>The network configuration engine\<close>

text \<open>
  \<open>applyRoutingConfig\<close>: the comparison given to \<open>slices.SortFunc\<close>, the route built for
  one entry (the table is the VRF's when \<open>vrfTable > 0\<close>; the destination must parse as
  a CIDR), the loop over the sorted entries and the function.
\<close>

definition routeCmp :: "RouteConfig \<Rightarrow> RouteConfig \<Rightarrow> int" where
  "routeCmp a b = uint (Scope b) - uint (Scope a)"

definition netlinkRoute :: "stdlib \<Rightarrow> int \<Rightarrow> int \<Rightarrow> RouteConfig \<Rightarrow> error + Route" where
  "netlinkRoute lib linkIndex vrfTable route =
     (let table = (if vrfTable > 0 then vrfTable else Table route);
          r = \<lparr>LinkIndex = linkIndex, RouteScope = Scope route, RouteTable = table,
               Dst = None, Gw = None, Src = None\<rparr>
      in (case ParseCIDR lib (Destination route) of
            Inl err \<Rightarrow> Inl err
          | Inr (_, dst) \<Rightarrow>
              (let r = r\<lparr>Dst := Some dst, Gw := ParseIP lib (Gateway route)\<rparr>
               in Inr (if Source route \<noteq> [] then r\<lparr>Src := ParseIP lib (Source route)\<rparr>
                       else r))))"

fun applyRoutes ::
  "stdlib \<Rightarrow> 'k netlinkOps \<Rightarrow> int \<Rightarrow> int \<Rightarrow> int \<Rightarrow> RouteConfig list \<Rightarrow> error list \<Rightarrow> 'k
     \<Rightarrow> error list \<times> 'k" where
  "applyRoutes lib ops nhNs linkIndex vrfTable [] errorList k = (errorList, k)"
| "applyRoutes lib ops nhNs linkIndex vrfTable (route # rest) errorList k =
     (case netlinkRoute lib linkIndex vrfTable route of
        Inl err \<Rightarrow> applyRoutes lib ops nhNs linkIndex vrfTable rest (errorList @ [err]) k
      | Inr r \<Rightarrow>
          (case RouteAdd ops k nhNs r of
             (None, k') \<Rightarrow> applyRoutes lib ops nhNs linkIndex vrfTable rest errorList k'
           | (Some err, k') \<Rightarrow>
               if \<not> errors_Is err EEXIST
               then applyRoutes lib ops nhNs linkIndex vrfTable rest
                      (errorList @
                       [Errorf ''fail to add route %s for interface %s on namespace %s: %w''
                          (Some err)]) k'
               else applyRoutes lib ops nhNs linkIndex vrfTable rest errorList k'))"

definition applyRoutingConfig ::
  "stdlib \<Rightarrow> 'k netlinkOps \<Rightarrow> string \<Rightarrow> string \<Rightarrow> RouteConfig list \<Rightarrow> int \<Rightarrow> 'k
     \<Rightarrow> error option \<times> 'k" where
  "applyRoutingConfig lib ops containerNsPAth ifName routeConfig vrfTable k =
     (case GetFromPath ops k containerNsPAth of
        Inl err \<Rightarrow> (Some err, k)
      | Inr containerNs \<Rightarrow>
          (case NewHandleAt ops k containerNs of
             Inl err \<Rightarrow> (Some (Errorf ''can not get netlink handle: %v'' None), k)
           | Inr nhNs \<Rightarrow>
               (case LinkByName ops k nhNs ifName of
                  Inl err \<Rightarrow>
                    (Some (Errorf ''link not found for interface %s on namespace %s: %w''
                             (Some err)), k)
                | Inr nsLink \<Rightarrow>
                    (case applyRoutes lib ops nhNs nsLink vrfTable
                            (SortFunc lib routeCmp routeConfig) [] k of
                       (errorList, k') \<Rightarrow> (errors_Join errorList, k')))))"







text \<open>
  Of a list of results, the successes and the failures, each in the order of the list.
\<close>

fun rights :: "('a + 'b) list \<Rightarrow> 'b list" where
  "rights [] = []"
| "rights (Inl a # xs) = rights xs"
| "rights (Inr b # xs) = b # rights xs"

fun lefts :: "('a + 'b) list \<Rightarrow> 'a list" where
  "lefts [] = []"
| "lefts (Inl a # xs) = a # lefts xs"
| "lefts (Inr b # xs) = lefts xs"

section \<open>Stand-ins for the library and the kernel, to run the engine on examples\<close>

text \<open>
  The theorems about the engine hold for every library and every kernel. To run the
  engine on concrete configurations the examples use the stand-ins below: the IPv4
  branch of \<open>netip.ParseAddr\<close> (strings with \<open>:\<close> or \<open>%\<close>, the IPv6 forms, are rejected by
  the stand-in), the six-group colon form of \<open>net.ParseMAC\<close>, the insertion sort that
  \<open>slices.SortFunc\<close> runs on slices of at most twelve elements, and a small kernel.
\<close>

text \<open>
  \<open>parseIPv4Fields\<close> of \<open>net/netip\<close>: the value and the number of digits of the current
  octet, the octets read so far, whether the position is the start of the string or
  follows a dot, and the input left.
\<close>

fun parseIPv4Fields :: "int \<Rightarrow> nat \<Rightarrow> int list \<Rightarrow> bool \<Rightarrow> string \<Rightarrow> int list option" where
  "parseIPv4Fields val digLen octets atDot [] =
     (if length octets < 3 then None else Some (octets @ [val]))"
| "parseIPv4Fields val digLen octets atDot (c # cs) =
     (if isDigit c then
        (if digLen = 1 \<and> val = 0 then None
         else (let val' = val * 10 + digitVal c
               in if val' > 255 then None
                  else parseIPv4Fields val' (Suc digLen) octets False cs))
      else if c = CHR ''.'' then
        (if atDot \<or> cs = [] then None
         else if length octets = 3 then None
         else parseIPv4Fields 0 0 (octets @ [val]) True cs)
      else None)"

fun firstSeparator :: "string \<Rightarrow> char option" where
  "firstSeparator [] = None"
| "firstSeparator (c # cs) = (if c \<in> set ''.:%'' then Some c else firstSeparator cs)"

definition ParseAddr_IPv4 :: "string \<Rightarrow> (Addr \<times> string) option" where
  "ParseAddr_IPv4 s =
     (if firstSeparator s = Some (CHR ''.'')
      then map_option (\<lambda>octets. (Addr4 octets, [])) (parseIPv4Fields 0 0 [] True s)
      else None)"

definition hexVal :: "char \<Rightarrow> int option" where
  "hexVal c =
     (if isDigit c then Some (digitVal c)
      else if c \<in> set ''abcdef'' then Some (of_char c - 87)
      else if c \<in> set ''ABCDEF'' then Some (of_char c - 55)
      else None)"

definition hexByte :: "string \<Rightarrow> int option" where
  "hexByte s =
     (case s of
        [a, b] \<Rightarrow>
          (case (hexVal a, hexVal b) of
             (Some x, Some y) \<Rightarrow> Some (16 * x + y)
           | _ \<Rightarrow> None)
      | _ \<Rightarrow> None)"

definition ParseMAC_colon :: "string \<Rightarrow> int list option" where
  "ParseMAC_colon s =
     (let groups = map hexByte (Split s (CHR '':''))
      in if length groups = 6 \<and> None \<notin> set groups then Some (map the groups) else None)"

text \<open>
  \<open>insertionSortCmpFunc\<close>: every element in turn moves left past the elements that
  compare greater.
\<close>

definition insertLeftwards :: "('a \<Rightarrow> 'a \<Rightarrow> int) \<Rightarrow> 'a list \<Rightarrow> 'a \<Rightarrow> 'a list" where
  "insertLeftwards cmp prefix x =
     rev (dropWhile (\<lambda>y. cmp x y < 0) (rev prefix)) @ [x]
     @ rev (takeWhile (\<lambda>y. cmp x y < 0) (rev prefix))"

definition insertionSortCmpFunc :: "('a \<Rightarrow> 'a \<Rightarrow> int) \<Rightarrow> 'a list \<Rightarrow> 'a list" where
  "insertionSortCmpFunc cmp xs = foldl (insertLeftwards cmp) [] xs"

definition exampleLib :: stdlib where
  "exampleLib =
     \<lparr>ParseAddr = ParseAddr_IPv4, ParseMAC = ParseMAC_colon, SortFunc = insertionSortCmpFunc\<rparr>"

text \<open>
  The example kernel holds the entries added so far. It knows one namespace and one
  interface; it answers \<open>EEXIST\<close> to an entry it holds already and \<open>EINVAL\<close> (22) to a
  route or a rule for a negative table.
\<close>

definition EINVAL :: error where
  "EINVAL = Errno 22"

definition exampleAdd :: "request list \<Rightarrow> bool \<Rightarrow> request \<Rightarrow> error option \<times> request list" where
  "exampleAdd k bad q =
     (if bad then (Some EINVAL, k)
      else if q \<in> set k then (Some EEXIST, k)
      else (None, k @ [q]))"

definition exampleKernel :: "(request list) netlinkOps" where
  "exampleKernel =
     \<lparr>GetFromPath = (\<lambda>k path. if path = ''/run/netns/pod'' then Inr 7 else Inl (Errno 2)),
      NewHandleAt = (\<lambda>k fd. Inr 1),
      LinkByName = (\<lambda>k nh name. if name = ''eth0'' then Inr 2 else Inl (Errno 19)),
      RouteAdd = (\<lambda>k nh r. exampleAdd k (RouteTable r < 0) (RouteReq r)),
      NeighAdd = (\<lambda>k nh n. exampleAdd k False (NeighReq n)),
      RuleAdd = (\<lambda>k nh r. exampleAdd k (RuleTableID r < 0) (RuleReq r))\<rparr>"

text \<open>
  Example configurations: the two routes of a GCE VM quoted in \<open>applyRoutingConfig\<close>
  (the universe route first, as \<open>ip route\<close> lists them), a route whose destination is a
  bare IP address, a neighbour and a rule.
\<close>

definition exampleRoutes :: "RouteConfig list" where
  "exampleRoutes =
     [\<lparr>Destination = ''10.0.5.0/24'', Gateway = ''10.0.5.1'', Source = ''10.0.5.8'',
       Scope = RT_SCOPE_UNIVERSE, Table = 0\<rparr>,
      \<lparr>Destination = ''10.0.5.1/32'', Gateway = [], Source = ''10.0.5.8'',
       Scope = RT_SCOPE_LINK, Table = 0\<rparr>]"

definition bareRoute :: RouteConfig where
  "bareRoute =
     \<lparr>Destination = ''10.0.5.1'', Gateway = [], Source = [], Scope = RT_SCOPE_LINK,
      Table = 0\<rparr>"



section \<open>The VRF sysctl step\<close>

text \<open>
  \<open>enableVRFSysctls\<close> acts on the calling OS thread: it pins the goroutine to the thread,
  gets a handle on the thread's network namespace, switches the thread to the container's
  namespace, writes two sysctls and, through its deferred calls, switches back, closes the
  handle and releases the pin. The calls it makes are the \<open>action\<close>s below. The state of
  the thread holds the count of \<open>LockOSThread\<close> calls not yet undone, the namespace the
  thread is in, the handles \<open>netns.Get\<close> opened, the sysctl writes made so far, each with
  the namespace it was made in, and the calls made so far. A namespace handle is
  identified with the namespace it refers to.
\<close>

datatype action =
    LockOSThread
  | NetnsGet
  | NetnsSet int
  | SetSysctl string int
  | NetnsClose int
  | UnlockOSThread

record osThread =
  lockCount :: nat
  ambientNs :: int
  openHandles :: "int list"
  sysctlWrites :: "(int \<times> string \<times> int) list"
  calls :: "action list"

text \<open>What a call does when it succeeds.\<close>

fun effect :: "action \<Rightarrow> osThread \<Rightarrow> osThread" where
  "effect LockOSThread s = s\<lparr>lockCount := Suc (lockCount s)\<rparr>"
| "effect NetnsGet s = s\<lparr>openHandles := ambientNs s # openHandles s\<rparr>"
| "effect (NetnsSet h) s = s\<lparr>ambientNs := h\<rparr>"
| "effect (SetSysctl name v) s = s\<lparr>sysctlWrites := sysctlWrites s @ [(ambientNs s, name, v)]\<rparr>"
| "effect (NetnsClose h) s = s\<lparr>openHandles := remove1 h (openHandles s)\<rparr>"
| "effect UnlockOSThread s = s\<lparr>lockCount := lockCount s - 1\<rparr>"

text \<open>
  Which calls fail is an argument of the model: a function of the state and the call. A
  call that fails returns its error and changes nothing; every call is recorded.
  \<open>runtime.LockOSThread\<close> and \<open>runtime.UnlockOSThread\<close> return nothing and do not fail.
\<close>

definition invoke ::
  "(osThread \<Rightarrow> action \<Rightarrow> error option) \<Rightarrow> action \<Rightarrow> osThread \<Rightarrow> error option \<times> osThread" where
  "invoke fail a s =
     (let s' = s\<lparr>calls := calls s @ [a]\<rparr>
      in (case fail s a of
            Some err \<Rightarrow> (Some err, s')
          | None \<Rightarrow> (None, effect a s')))"

definition perform :: "action \<Rightarrow> osThread \<Rightarrow> osThread" where
  "perform a s = effect a (s\<lparr>calls := calls s @ [a]\<rparr>)"

text \<open>
  \<open>enableVRFSysctls\<close>. The deferred calls run on return in the reverse order of their
  \<open>defer\<close> statements; the errors of the deferred \<open>netns.Set(origns)\<close> and \<open>origns.Close()\<close>
  are dropped.
\<close>

definition enableVRFSysctls ::
  "(osThread \<Rightarrow> action \<Rightarrow> error option) \<Rightarrow> int \<Rightarrow> osThread \<Rightarrow> error option \<times> osThread" where
  "enableVRFSysctls fail containerNsFd s0 =
     (let s1 = perform LockOSThread s0
      in (case invoke fail NetnsGet s1 of
            (Some err, s2) \<Rightarrow> (Some err, perform UnlockOSThread s2)
          | (None, s2) \<Rightarrow>
              (let origns = ambientNs s2
               in (case invoke fail (NetnsSet containerNsFd) s2 of
                     (Some err, s3) \<Rightarrow>
                       (Some err,
                        perform UnlockOSThread (snd (invoke fail (NetnsClose origns) s3)))
                   | (None, s3) \<Rightarrow>
                       (case (case invoke fail (SetSysctl ''net/ipv4/tcp_l3mdev_accept'' 1) s3 of
                                (Some err, s4) \<Rightarrow>
                                  (Some (Errorf ''failed to set tcp_l3mdev_accept: %w''
                                           (Some err)), s4)
                              | (None, s4) \<Rightarrow>
                                  (case invoke fail (SetSysctl ''net/ipv4/udp_l3mdev_accept'' 1)
                                          s4 of
                                     (Some err, s5) \<Rightarrow>
                                       (Some (Errorf ''failed to set udp_l3mdev_accept: %w''
                                                (Some err)), s5)
                                   | (None, s5) \<Rightarrow> (None, s5))) of
                          (res, s6) \<Rightarrow>
                            (res,
                             perform UnlockOSThread
                               (snd (invoke fail (NetnsClose origns)
                                  (snd (invoke fail (NetnsSet origns) s6))))))))))"

text \<open>
  Two goroutines that call \<open>enableVRFSysctls\<close> at the same time. None of the calls of
  \<open>enableVRFSysctls\<close> waits for another goroutine, so the scheduler may run the calls of
  the two invocations in any interleaving that keeps the order of each. A schedule of
  two call sequences is such an interleaving, each call tagged with its goroutine.
\<close>

fun isInterleaving :: "'a list \<Rightarrow> 'a list \<Rightarrow> 'a list \<Rightarrow> bool" where
  "isInterleaving [] ys zs = (zs = ys)"
| "isInterleaving xs [] zs = (zs = xs)"
| "isInterleaving (x # xs) (y # ys) [] = False"
| "isInterleaving (x # xs) (y # ys) (z # zs) =
     ((z = x \<and> isInterleaving xs (y # ys) zs) \<or> (z = y \<and> isInterleaving (x # xs) ys zs))"

definition isSchedule :: "action list \<Rightarrow> action list \<Rightarrow> (nat \<times> action) list \<Rightarrow> bool" where
  "isSchedule xs ys zs = isInterleaving (map (Pair 1) xs) (map (Pair 2) ys) zs"

text \<open>
  A schedule keeps the switch-apply-restore sequences apart when no goroutine switches to
  its container's namespace while another one is between its switch and its restore.
  \<open>target g\<close> is the container namespace of goroutine \<open>g\<close>; the second argument is the
  goroutine inside its sequence, if any.
\<close>

fun exclusive :: "(nat \<Rightarrow> int) \<Rightarrow> nat option \<Rightarrow> (nat \<times> action) list \<Rightarrow> bool" where
  "exclusive target holder [] = True"
| "exclusive target holder ((g, NetnsSet h) # rest) =
     (if h = target g then
        (case holder of
           None \<Rightarrow> exclusive target (Some g) rest
         | Some g' \<Rightarrow> g' = g \<and> exclusive target holder rest)
      else exclusive target (if holder = Some g then None else holder) rest)"
| "exclusive target holder (_ # rest) = exclusive target holder rest"

text \<open>An example thread: in namespace 1, not pinned, nothing open; and a world where no call fails.\<close>

definition hostThread :: osThread where
  "hostThread =
     \<lparr>lockCount = 0, ambientNs = 1, openHandles = [], sysctlWrites = [], calls = []\<rparr>"

definition noFailure :: "osThread \<Rightarrow> action \<Rightarrow> error option" where
  "noFailure s a = None"

text \<open>
  A world where writing the second sysctl fails with \<open>EINVAL\<close>, and one where switching
  back to namespace 1 fails with \<open>EPERM\<close> (1).
\<close>

definition udpFails :: "osThread \<Rightarrow> action \<Rightarrow> error option" where
  "udpFails s a = (if a = SetSysctl ''net/ipv4/udp_l3mdev_accept'' 1 then Some EINVAL else None)"

definition restoreFails :: "osThread \<Rightarrow> action \<Rightarrow> error option" where
  "restoreFails s a = (if a = NetnsSet 1 then Some (Errno 1) else None)"

text \<open>
  A schedule of two invocations, goroutine 1 for the container namespace 7 and goroutine
  2 for the container namespace 8: goroutine 2 runs its whole sequence after goroutine 1
  has switched and before it writes its sysctls.
\<close>

definition overlappingSchedule :: "(nat \<times> action) list" where
  "overlappingSchedule =
     [(1, LockOSThread), (1, NetnsGet), (1, NetnsSet 7),
      (2, LockOSThread), (2, NetnsGet), (2, NetnsSet 8),
      (2, SetSysctl ''net/ipv4/tcp_l3mdev_accept'' 1),
      (2, SetSysctl ''net/ipv4/udp_l3mdev_accept'' 1),
      (2, NetnsSet 1), (2, NetnsClose 1), (2, UnlockOSThread),
      (1, SetSysctl ''net/ipv4/tcp_l3mdev_accept'' 1),
      (1, SetSysctl ''net/ipv4/udp_l3mdev_accept'' 1),
      (1, NetnsSet 1), (1, NetnsClose 1), (1, UnlockOSThread)]"

definition exampleTarget :: "nat \<Rightarrow> int" where
  "exampleTarget g = (if g = 1 then 7 else 8)"

section \<open>Properties of the string helpers\<close>

lemma Split_not_Nil: "Split s sep \<noteq> []"
  by (induction s) (auto split: list.splits)

lemma Split_IndexByte_None: "IndexByte s sep = None \<Longrightarrow> Split s sep = [s]"
  by (induction s) (auto split: if_splits list.splits)

lemma Split_IndexByte_Some:
  "IndexByte s sep = Some m \<Longrightarrow> Split s sep = take m s # Split (drop (Suc m) s) sep"
proof (induction s arbitrary: m)
  case Nil
  then show ?case by simp
next
  case (Cons x xs)
  show ?case
  proof (cases "x = sep")
    case True
    with Cons.prems show ?thesis by simp
  next
    case False
    with Cons.prems obtain k where k: "IndexByte xs sep = Some k" "m = Suc k"
      by auto
    from Cons.IH [OF k(1)] False k(2) show ?thesis by simp
  qed
qed

lemma Join_Cons: "Join (x # xs) sep = (if xs = [] then x else x @ sep @ Join xs sep)"
  by (cases xs) simp_all

text \<open>Joining the pieces of a split gives the string back.\<close>

lemma Join_Split: "Join (Split s sep) [sep] = s"
  by (induction s) (auto simp: Join_Cons Split_not_Nil split: list.splits)

lemma Split_single: "length (Split s sep) \<le> Suc 0 \<Longrightarrow> Split s sep = [s]"
proof -
  assume a: "length (Split s sep) \<le> Suc 0"
  then obtain p where p: "Split s sep = [p]"
    using Split_not_Nil [of s sep] by (cases "Split s sep") auto
  from Join_Split [of s sep] p show ?thesis by simp
qed

text \<open>
  \<open>SplitN\<close> against \<open>Split\<close>: the first \<open>n\<close> pieces are those of the full split, the last
  one is the rest of the string, separators included.
\<close>

lemma SplitN_Split:
  "SplitN s sep (Suc n) =
     (if length (Split s sep) \<le> Suc n then Split s sep
      else take n (Split s sep) @ [Join (drop n (Split s sep)) [sep]])"
proof (induction n arbitrary: s)
  case 0
  show ?case by (simp add: Split_single Join_Split)
next
  case (Suc n)
  show ?case
  proof (cases "IndexByte s sep")
    case None
    then show ?thesis by (simp add: Split_IndexByte_None)
  next
    case (Some m)
    then show ?thesis
      by (simp add: Split_IndexByte_Some Suc.IH)
  qed
qed

lemma length_SplitN_3:
  "length (SplitN s sep 3) = 3 \<longleftrightarrow> 3 \<le> length (Split s sep)"
  using SplitN_Split [of s sep 2] by (auto simp: numeral_3_eq_3 numeral_2_eq_2)

lemma SplitN_3_parts:
  assumes "3 \<le> length (Split s sep)"
  shows "SplitN s sep 3 ! 0 = Split s sep ! 0"
    and "SplitN s sep 3 ! 1 = Split s sep ! 1"
    and "SplitN s sep 3 ! 2 = Join (drop 2 (Split s sep)) [sep]"
proof -
  let ?ps = "Split s sep"
  have eq: "SplitN s sep 3
              = (if length ?ps \<le> 3 then ?ps else take 2 ?ps @ [Join (drop 2 ?ps) [sep]])"
    using SplitN_Split [of s sep 2] by (simp add: numeral_3_eq_3 numeral_2_eq_2)
  show "SplitN s sep 3 ! 0 = ?ps ! 0"
    using assms eq by (auto simp: nth_append)
  show "SplitN s sep 3 ! 1 = ?ps ! 1"
    using assms eq by (auto simp: nth_append)
  show "SplitN s sep 3 ! 2 = Join (drop 2 ?ps) [sep]"
  proof (cases "length ?ps \<le> 3")
    case True
    with assms have l: "length ?ps = Suc (Suc (Suc 0))" by simp
    then obtain a b c where abc: "?ps = [a, b, c]"
      by (auto simp: length_Suc_conv)
    with eq True show ?thesis by simp
  next
    case False
    with eq show ?thesis by (simp add: nth_append)
  qed
qed

section \<open>Properties of \<open>GetDeviceAttributes\<close>\<close>

lemma keys_distinct:
  "AttrGCEMachineType \<noteq> AttrGCEBlock" "AttrGCEMachineType \<noteq> AttrGCESubBlock"
  "AttrGCEMachineType \<noteq> AttrGCEHost" "AttrGCEBlock \<noteq> AttrGCESubBlock"
  "AttrGCEBlock \<noteq> AttrGCEHost" "AttrGCESubBlock \<noteq> AttrGCEHost"
  "AttrGCENetworkName \<noteq> AttrGCEMachineType"
  "AttrGCENetworkProjectNumber \<noteq> AttrGCEMachineType"
  "AttrGCENetworkName \<noteq> AttrGCENetworkProjectNumber"
  "AttrGCEIPAliases \<noteq> AttrGCEMachineType"
  "AttrGCENetworkName \<noteq> AttrGCEBlock" "AttrGCENetworkName \<noteq> AttrGCESubBlock"
  "AttrGCENetworkName \<noteq> AttrGCEHost"
  "AttrGCENetworkProjectNumber \<noteq> AttrGCEBlock"
  "AttrGCENetworkProjectNumber \<noteq> AttrGCESubBlock"
  "AttrGCENetworkProjectNumber \<noteq> AttrGCEHost"
  "AttrGCEIPAliases \<noteq> AttrGCEBlock" "AttrGCEIPAliases \<noteq> AttrGCESubBlock"
  "AttrGCEIPAliases \<noteq> AttrGCEHost"
  by (simp_all add: AttrGCEMachineType_def AttrGCEBlock_def AttrGCESubBlock_def
      AttrGCEHost_def AttrGCENetworkName_def AttrGCENetworkProjectNumber_def
      AttrGCEIPAliases_def)

lemma interfaceForMac_None_iff:
  "interfaceForMac xs mac = None \<longleftrightarrow> (\<forall>ci \<in> set xs. Mac ci \<noteq> mac)"
  by (induction xs) auto

text \<open>
  The call returns the \<open>nil\<close> map in one case only: the MAC is not empty, a record
  matches it, and scanning that record's network path fails. The topology plays no part.
\<close>

lemma GetDeviceAttributes_None_iff:
  "GetDeviceAttributes g ident = None \<longleftrightarrow>
     (MAC ident \<noteq> [] \<and>
      (\<exists>ifc. interfaceForMac (Interfaces g) (MAC ident) = Some ifc
             \<and> Sscanf_network (Network ifc) = None))"
  by (auto simp: GetDeviceAttributes_def Let_def split: option.splits)



lemma topologyAttributes_topology:
  assumes "Topology g \<noteq> []"
  shows "(if 3 \<le> length (Split (TrimPrefix (Topology g) ''/'') (CHR ''/''))
          then topologyAttributes g AttrGCEBlock
                 = Some (StringValue (Split (TrimPrefix (Topology g) ''/'') (CHR ''/'') ! 0))
             \<and> topologyAttributes g AttrGCESubBlock
                 = Some (StringValue (Split (TrimPrefix (Topology g) ''/'') (CHR ''/'') ! 1))
             \<and> topologyAttributes g AttrGCEHost
                 = Some (StringValue
                     (Join (drop 2 (Split (TrimPrefix (Topology g) ''/'') (CHR ''/''))) ''/''))
          else topologyAttributes g AttrGCEBlock = None
             \<and> topologyAttributes g AttrGCESubBlock = None
             \<and> topologyAttributes g AttrGCEHost = None)"
  using assms SplitN_3_parts [of "TrimPrefix (Topology g) ''/''" "CHR ''/''"]
    length_SplitN_3 [of "TrimPrefix (Topology g) ''/''" "CHR ''/''"]
  by (simp add: topologyAttributes_def Let_def keys_distinct keys_distinct [symmetric])

lemma GetDeviceAttributes_topology_keys:
  assumes "GetDeviceAttributes g ident = Some m"
    and "k \<in> {AttrGCEBlock, AttrGCESubBlock, AttrGCEHost}"
  shows "m k = topologyAttributes g k"
  using assms
  by (auto simp: GetDeviceAttributes_def Let_def keys_distinct keys_distinct [symmetric]
      split: if_splits option.splits)

lemma GetDeviceAttributes_unmatched:
  assumes "MAC ident = [] \<or> (\<forall>ci \<in> set (Interfaces g). Mac ci \<noteq> MAC ident)"
  shows "GetDeviceAttributes g ident = Some (topologyAttributes g)"
  using assms interfaceForMac_None_iff [of "Interfaces g" "MAC ident"]
  by (auto simp: GetDeviceAttributes_def Let_def)


lemma Sscanf_invalid_network:
  "Sscanf_network ''invalid-gce-network-string'' = None"
  by code_simp

text \<open>
  Claim C1, as the code has it. For every instance and every identifier whose MAC is
  not empty and matches an interface record: if \<open>fmt.Sscanf\<close> with the format
  \<open>projects/%d/networks/%s\<close> reports an error on that record's network path, the call
  returns the \<open>nil\<close> map: no machine type, no topology, no IP aliases.
\<close>

theorem network_parse_failure_discards_all:
  assumes "MAC ident \<noteq> []"
    and "interfaceForMac (Interfaces g) (MAC ident) = Some ifc"
    and "Sscanf_network (Network ifc) = None"
  shows "GetDeviceAttributes g ident = None"
  using assms by (simp add: GetDeviceAttributes_def Let_def)

text \<open>
  The test case "MAC found, invalid network string for GCE parsing" of
  \<open>TestGetDeviceAttributes\<close>.
\<close>

theorem network_parse_failure_discards_all_witness:
  "GetDeviceAttributes
     \<lparr>Name = [], Type = ''machine-type-a'', AcceleratorProtocol = [],
      Interfaces = [\<lparr>IPv4 = [], IPv6 = [], Mac = ''00:11:22:33:44:55'', MTU = 0,
                     Network = ''invalid-gce-network-string'', IPAliases = []\<rparr>],
      Topology = ''/block/subblock/host''\<rparr>
     \<lparr>MAC = ''00:11:22:33:44:55'', PCIAddress = [], DeviceName = []\<rparr>
   = None"
  using network_parse_failure_discards_all
    [of "\<lparr>MAC = ''00:11:22:33:44:55'', PCIAddress = [], DeviceName = []\<rparr>"
        "\<lparr>Name = [], Type = ''machine-type-a'', AcceleratorProtocol = [],
          Interfaces = [\<lparr>IPv4 = [], IPv6 = [], Mac = ''00:11:22:33:44:55'', MTU = 0,
                         Network = ''invalid-gce-network-string'', IPAliases = []\<rparr>],
          Topology = ''/block/subblock/host''\<rparr>"
        "\<lparr>IPv4 = [], IPv6 = [], Mac = ''00:11:22:33:44:55'', MTU = 0,
          Network = ''invalid-gce-network-string'', IPAliases = []\<rparr>"]
  by (simp add: Sscanf_invalid_network)

text \<open>
  Claim C1 as the specification words it fails: the scanner is not strict. The path
  \<open>projects/-5/networks/x\<close> is not of the form \<open>projects/<digits>/networks/<name>\<close>, yet
  \<open>%d\<close> takes the sign, the scan succeeds and the attributes are returned, with the
  project number \<open>-5\<close>.
\<close>

theorem strict_pattern_counterexample:
  "\<not> strictNetworkPath ''projects/-5/networks/x''
   \<and> map_option
        (\<lambda>m. (m AttrGCEMachineType, m AttrGCENetworkName, m AttrGCENetworkProjectNumber))
        (GetDeviceAttributes
           \<lparr>Name = [], Type = ''machine-type-a'', AcceleratorProtocol = [],
            Interfaces = [\<lparr>IPv4 = [], IPv6 = [], Mac = ''00:11:22:33:44:55'', MTU = 0,
                           Network = ''projects/-5/networks/x'', IPAliases = []\<rparr>],
            Topology = []\<rparr>
           \<lparr>MAC = ''00:11:22:33:44:55'', PCIAddress = [], DeviceName = []\<rparr>)
     = Some (Some (StringValue ''machine-type-a''), Some (StringValue ''x''),
             Some (IntValue (- 5)))"
  by code_simp

text \<open>
  Claim C2, as the code has it. For every instance with a non-empty topology: the
  topology never decides whether the call returns the \<open>nil\<close> map; and whenever the call
  returns attributes, block, sub-block and host are among them exactly when the
  topology, after one leading \<open>/\<close> is trimmed, splits on \<open>/\<close> into three segments or more.
  Block and sub-block are the first two segments; the host is the rest of the string
  after the second separator, further separators included. With fewer than three
  segments none of the three attributes is set.
\<close>

theorem topology_attributes_by_segment_count:
  assumes "Topology g \<noteq> []"
  shows "(GetDeviceAttributes (g\<lparr>Topology := t\<rparr>) ident = None
            \<longleftrightarrow> GetDeviceAttributes g ident = None)
       \<and> (\<forall>m. GetDeviceAttributes g ident = Some m \<longrightarrow>
            (if 3 \<le> length (Split (TrimPrefix (Topology g) ''/'') (CHR ''/''))
             then m AttrGCEBlock
                    = Some (StringValue (Split (TrimPrefix (Topology g) ''/'') (CHR ''/'') ! 0))
                \<and> m AttrGCESubBlock
                    = Some (StringValue (Split (TrimPrefix (Topology g) ''/'') (CHR ''/'') ! 1))
                \<and> m AttrGCEHost
                    = Some (StringValue
                        (Join (drop 2 (Split (TrimPrefix (Topology g) ''/'') (CHR ''/''))) ''/''))
             else m AttrGCEBlock = None \<and> m AttrGCESubBlock = None \<and> m AttrGCEHost = None))"
proof (intro conjI allI impI)
  show "GetDeviceAttributes (g\<lparr>Topology := t\<rparr>) ident = None
          \<longleftrightarrow> GetDeviceAttributes g ident = None"
    by (simp add: GetDeviceAttributes_None_iff)
next
  fix m
  assume m: "GetDeviceAttributes g ident = Some m"
  have "m AttrGCEBlock = topologyAttributes g AttrGCEBlock"
    "m AttrGCESubBlock = topologyAttributes g AttrGCESubBlock"
    "m AttrGCEHost = topologyAttributes g AttrGCEHost"
    using GetDeviceAttributes_topology_keys [OF m] by simp_all
  with topologyAttributes_topology [OF assms]
  show "if 3 \<le> length (Split (TrimPrefix (Topology g) ''/'') (CHR ''/''))
        then m AttrGCEBlock
               = Some (StringValue (Split (TrimPrefix (Topology g) ''/'') (CHR ''/'') ! 0))
           \<and> m AttrGCESubBlock
               = Some (StringValue (Split (TrimPrefix (Topology g) ''/'') (CHR ''/'') ! 1))
           \<and> m AttrGCEHost
               = Some (StringValue
                   (Join (drop 2 (Split (TrimPrefix (Topology g) ''/'') (CHR ''/''))) ''/''))
        else m AttrGCEBlock = None \<and> m AttrGCESubBlock = None \<and> m AttrGCEHost = None"
    by simp
qed

text \<open>
  The test cases of \<open>TestGetDeviceAttributes\<close> with the topologies \<open>/block/subblock/host\<close>
  (three segments) and \<open>/block/subblock\<close> (two segments), for a MAC that matches no
  record.
\<close>

theorem topology_attributes_by_segment_count_witness:
  "map_option (\<lambda>m. (m AttrGCEBlock, m AttrGCESubBlock, m AttrGCEHost))
     (GetDeviceAttributes
        \<lparr>Name = [], Type = ''machine-type-a'', AcceleratorProtocol = [],
         Interfaces = [], Topology = ''/block/subblock/host''\<rparr>
        \<lparr>MAC = ''00:11:22:33:44:FF'', PCIAddress = [], DeviceName = []\<rparr>)
     = Some (Some (StringValue ''block''), Some (StringValue ''subblock''),
             Some (StringValue ''host''))
   \<and> map_option (\<lambda>m. (m AttrGCEBlock, m AttrGCESubBlock, m AttrGCEHost))
     (GetDeviceAttributes
        \<lparr>Name = [], Type = ''machine-type-a'', AcceleratorProtocol = [],
         Interfaces = [], Topology = ''/block/subblock''\<rparr>
        \<lparr>MAC = ''00:11:22:33:44:FF'', PCIAddress = [], DeviceName = []\<rparr>)
     = Some (None, None, None)"
proof -
  let ?i = "\<lparr>MAC = ''00:11:22:33:44:FF'', PCIAddress = [], DeviceName = []\<rparr>"
  let ?g3 = "\<lparr>Name = [], Type = ''machine-type-a'', AcceleratorProtocol = [],
              Interfaces = [], Topology = ''/block/subblock/host''\<rparr>"
  let ?g2 = "\<lparr>Name = [], Type = ''machine-type-a'', AcceleratorProtocol = [],
              Interfaces = [], Topology = ''/block/subblock''\<rparr>"
  have s3: "Split (TrimPrefix ''/block/subblock/host'' ''/'') (CHR ''/'')
              = [''block'', ''subblock'', ''host'']"
    by code_simp
  have s2: "Split (TrimPrefix ''/block/subblock'' ''/'') (CHR ''/'') = [''block'', ''subblock'']"
    by code_simp
  have r3: "GetDeviceAttributes ?g3 ?i = Some (topologyAttributes ?g3)"
    by (rule GetDeviceAttributes_unmatched) simp
  have r2: "GetDeviceAttributes ?g2 ?i = Some (topologyAttributes ?g2)"
    by (rule GetDeviceAttributes_unmatched) simp
  from topology_attributes_by_segment_count [of ?g3 "[]" ?i] s3 r3
  have a: "map_option (\<lambda>m. (m AttrGCEBlock, m AttrGCESubBlock, m AttrGCEHost))
             (GetDeviceAttributes ?g3 ?i)
           = Some (Some (StringValue ''block''), Some (StringValue ''subblock''),
                   Some (StringValue ''host''))"
    by simp
  from topology_attributes_by_segment_count [of ?g2 "[]" ?i] s2 r2
  have b: "map_option (\<lambda>m. (m AttrGCEBlock, m AttrGCESubBlock, m AttrGCEHost))
             (GetDeviceAttributes ?g2 ?i)
           = Some (None, None, None)"
    by simp
  from a b show ?thesis by simp
qed

text \<open>
  Claim C2 as the specification words it fails for more than three segments:
  \<open>SplitN\<close> is called with the limit 3, so the topology \<open>/a/b/c/d\<close>, four segments after
  trimming, yields three parts and all three attributes, the host being \<open>c/d\<close>.
\<close>

theorem four_segments_counterexample:
  "length (Split (TrimPrefix ''/a/b/c/d'' ''/'') (CHR ''/'')) = 4
   \<and> map_option (\<lambda>m. (m AttrGCEBlock, m AttrGCESubBlock, m AttrGCEHost))
       (GetDeviceAttributes
          \<lparr>Name = [], Type = ''machine-type-a'', AcceleratorProtocol = [],
           Interfaces = [], Topology = ''/a/b/c/d''\<rparr>
          \<lparr>MAC = [], PCIAddress = [], DeviceName = []\<rparr>)
     = Some (Some (StringValue ''a''), Some (StringValue ''b''), Some (StringValue ''c/d''))"
  by code_simp



section \<open>Properties of the short names\<close>

lemma lastSegment_spec:
  "CHR ''/'' \<notin> set (lastSegment s)
   \<and> (if CHR ''/'' \<in> set s then \<exists>pre. s = pre @ CHR ''/'' # lastSegment s
      else s = lastSegment s)"
proof (induction s)
  case Nil
  then show ?case by simp
next
  case (Cons c cs)
  show ?case
  proof (cases "CHR ''/'' \<in> set cs")
    case True
    with Cons obtain pre where "cs = pre @ CHR ''/'' # lastSegment cs" by auto
    then have "c # cs = (c # pre) @ CHR ''/'' # lastSegment cs" by simp
    then have "\<exists>p. c # cs = p @ CHR ''/'' # lastSegment cs" by blast
    with True Cons show ?thesis by simp
  next
    case False
    then show ?thesis by (cases "c = CHR ''/''") auto
  qed
qed

text \<open>
  Claim C10. The result is the segment after the final \<open>/\<close> (the whole string when there
  is none, the empty string when the path ends in \<open>/\<close> or is empty), cut to at most
  \<open>maxLength\<close> bytes; with the four examples of the specification.
\<close>

theorem shortName_last_segment_truncated:
  "(\<exists>seg. CHR ''/'' \<notin> set seg
       \<and> (if CHR ''/'' \<in> set path then \<exists>pre. path = pre @ CHR ''/'' # seg else path = seg)
       \<and> getLastSegmentAndTruncate path maxLength = take maxLength seg)
   \<and> length (getLastSegmentAndTruncate path maxLength) \<le> maxLength
   \<and> getLastSegmentAndTruncate ''/path/to/segment'' 20 = ''segment''
   \<and> getLastSegmentAndTruncate ''/path/to/verylongsegmentname'' 10 = ''verylongse''
   \<and> getLastSegmentAndTruncate ''/path/to/segment/'' 10 = []
   \<and> getLastSegmentAndTruncate [] 10 = []"
proof -
  have 1: "\<exists>seg. CHR ''/'' \<notin> set seg
       \<and> (if CHR ''/'' \<in> set path then \<exists>pre. path = pre @ CHR ''/'' # seg else path = seg)
       \<and> getLastSegmentAndTruncate path maxLength = take maxLength seg"
    using lastSegment_spec [of path]
    by (intro exI [of _ "lastSegment path"]) (simp add: getLastSegmentAndTruncate_def Let_def)
  have 2: "length (getLastSegmentAndTruncate path maxLength) \<le> maxLength"
    by (simp add: getLastSegmentAndTruncate_def Let_def)
  have 3: "getLastSegmentAndTruncate ''/path/to/segment'' 20 = ''segment''"
    by code_simp
  have 4: "getLastSegmentAndTruncate ''/path/to/verylongsegmentname'' 10 = ''verylongse''"
    by code_simp
  have 5: "getLastSegmentAndTruncate ''/path/to/segment/'' 10 = []"
    by code_simp
  have 6: "getLastSegmentAndTruncate [] 10 = []"
    by code_simp
  from 1 2 3 4 5 6 show ?thesis by blast
qed

text \<open>The remaining cases of \<open>Test_getLastSegmentAndTruncate\<close>.\<close>

theorem shortName_last_segment_truncated_witness:
  "getLastSegmentAndTruncate ''/path/to/segmentname'' 12 = ''segmentname''
   \<and> getLastSegmentAndTruncate ''justafilename'' 20 = ''justafilename''
   \<and> getLastSegmentAndTruncate ''justaverylongfilename'' 10 = ''justaveryl''
   \<and> length (getLastSegmentAndTruncate ''justaverylongfilename'' 10) \<le> 10"
proof -
  have a: "getLastSegmentAndTruncate ''/path/to/segmentname'' 12 = ''segmentname''"
    by code_simp
  have b: "getLastSegmentAndTruncate ''justafilename'' 20 = ''justafilename''"
    by code_simp
  have c: "getLastSegmentAndTruncate ''justaverylongfilename'' 10 = ''justaveryl''"
    by code_simp
  from shortName_last_segment_truncated [of "''justaverylongfilename''" 10] a b c
  show ?thesis by simp
qed

section \<open>Properties of the VRF table allocator\<close>

text \<open>Three test vectors of FNV-1a.\<close>

lemma fnv32a_vectors:
  "fnv32a [] = 0x811c9dc5" "fnv32a ''a'' = 0xe40c292c" "fnv32a ''foobar'' = 0xbf9cf968"
  by code_simp+

lemma uint_hash_offset:
  fixes h off :: "32 word"
  assumes "uint off + 999 < 2 ^ 32"
  shows "uint (h mod 1000 + off) = uint h mod 1000 + uint off"
proof -
  have m: "uint (h mod 1000) = uint h mod 1000"
    by (simp add: uint_mod)
  have "uint h mod 1000 < 1000" by simp
  with assms have "uint (h mod 1000) + uint off < 2 ^ LENGTH(32)"
    using m by simp
  then have "uint (h mod 1000 + off) = uint (h mod 1000) + uint off"
    using uint_add_lem [of "h mod 1000" off] by blast
  with m show ?thesis by simp
qed

text \<open>
  Claim C7. With no table and a non-empty name, \<open>Default\<close> sets the table to the FNV-1a
  hash of the name modulo 1000 plus \<open>VRFTableOffset\<close>, the sum taken on \<open>uint32\<close>; it is
  the sum of the two numbers whenever the offset leaves room for 999 below \<open>2^32\<close>.
  The table depends on the name only, so two configurations with the same name get
  the same table. A configuration whose table is set is left as it is.
\<close>

theorem vrf_default_table:
  "(VRFTable c = None \<and> VRFName c \<noteq> [] \<longrightarrow>
      VRFConfig_Default off c
        = c\<lparr>VRFTable := Some (uint (fnv32a (VRFName c) mod 1000 + off))\<rparr>
      \<and> (uint off + 999 < 2 ^ 32 \<longrightarrow>
           VRFTable (VRFConfig_Default off c)
             = Some (uint (fnv32a (VRFName c)) mod 1000 + uint off)))
   \<and> (VRFTable c = None \<and> VRFTable c' = None \<and> VRFName c' = VRFName c \<longrightarrow>
        VRFTable (VRFConfig_Default off c') = VRFTable (VRFConfig_Default off c))
   \<and> (VRFTable c \<noteq> None \<longrightarrow> VRFConfig_Default off c = c)"
  using uint_hash_offset [of off "fnv32a (VRFName c)"]
  by (auto simp: VRFConfig_Default_def Let_def)

theorem vrf_default_table_witness:
  "VRFConfig_Default 1000 \<lparr>VRFName = ''vrf-blue'', VRFTable = None\<rparr>
     = \<lparr>VRFName = ''vrf-blue'', VRFTable = Some 1284\<rparr>
   \<and> uint (fnv32a ''vrf-blue'') mod 1000 + uint (1000 :: 32 word) = 1284
   \<and> VRFConfig_Default 1000 \<lparr>VRFName = ''vrf-blue'', VRFTable = Some 42\<rparr>
     = \<lparr>VRFName = ''vrf-blue'', VRFTable = Some 42\<rparr>"
proof -
  have h: "fnv32a ''vrf-blue'' mod 1000 + 1000 = (1284 :: 32 word)" by code_simp
  have u: "uint (fnv32a ''vrf-blue'') mod 1000 + uint (1000 :: 32 word) = 1284" by code_simp
  from vrf_default_table [of "\<lparr>VRFName = ''vrf-blue'', VRFTable = None\<rparr>" 1000
      "\<lparr>VRFName = ''vrf-blue'', VRFTable = None\<rparr>"]
    vrf_default_table [of "\<lparr>VRFName = ''vrf-blue'', VRFTable = Some 42\<rparr>" 1000
      "\<lparr>VRFName = ''vrf-blue'', VRFTable = None\<rparr>"]
    h u
  show ?thesis by simp
qed

section \<open>Properties of the network configuration engine\<close>

lemma rights_map_conv:
  "rights (map f xs) = map (\<lambda>e. projr (f e)) (filter (\<lambda>e. \<not> isl (f e)) xs)"
proof (induction xs)
  case Nil
  then show ?case by simp
next
  case (Cons x xs)
  then show ?case by (cases "f x") simp_all
qed

lemma lefts_map_conv:
  "lefts (map f xs) = map (\<lambda>e. projl (f e)) (filter (\<lambda>e. isl (f e)) xs)"
proof (induction xs)
  case Nil
  then show ?case by simp
next
  case (Cons x xs)
  then show ?case by (cases "f x") simp_all
qed

lemma mset_rights_cong:
  "mset xs = mset ys \<Longrightarrow> mset (rights (map f xs)) = mset (rights (map f ys))"
  by (simp add: rights_map_conv)

lemma length_lefts_cong:
  assumes "mset xs = mset ys"
  shows "length (lefts (map f xs)) = length (lefts (map f ys))"
proof -
  have "mset (lefts (map f xs)) = mset (lefts (map f ys))"
    using assms by (simp add: lefts_map_conv)
  then show ?thesis by (rule mset_eq_length)
qed

lemma set_rights_map:
  "r \<in> set (rights (map f xs)) \<longleftrightarrow> (\<exists>e \<in> set xs. f e = Inr r)"
proof (induction xs)
  case Nil
  then show ?case by simp
next
  case (Cons x xs)
  then show ?case by (cases "f x") auto
qed

lemma sorted_wrt_rights:
  assumes "sorted_wrt P xs"
    and "\<And>a b ra rb. P a b \<Longrightarrow> f a = Inr ra \<Longrightarrow> f b = Inr rb \<Longrightarrow> Q ra rb"
  shows "sorted_wrt Q (rights (map f xs))"
  using assms(1)
proof (induction xs)
  case Nil
  then show ?case by simp
next
  case (Cons x xs)
  show ?case
  proof (cases "f x")
    case (Inl a)
    with Cons show ?thesis by simp
  next
    case (Inr rx)
    have "Q rx r" if "r \<in> set (rights (map f xs))" for r
    proof -
      from that obtain e where e: "e \<in> set xs" "f e = Inr r"
        by (auto simp: set_rights_map)
      from Cons.prems e(1) have "P x e" by simp
      then show ?thesis using Inr e(2) by (rule assms(2))
    qed
    with Cons Inr show ?thesis by simp
  qed
qed

lemma routeRequests_append [simp]:
  "routeRequests (l @ l') = routeRequests l @ routeRequests l'"
  by (induction l rule: routeRequests.induct) simp_all

lemma routeRequests_RouteReq:
  "map fst new = map RouteReq rs \<Longrightarrow> routeRequests new = rs"
proof (induction new arbitrary: rs)
  case Nil
  then show ?case by simp
next
  case (Cons x new)
  then obtain r rs' where rs: "rs = r # rs'" by (cases rs) auto
  with Cons.prems have "fst x = RouteReq r" "map fst new = map RouteReq rs'" by auto
  with Cons.IH rs show ?case by (cases x) auto
qed

text \<open>
  The loop over the routes, run on a recording kernel: every entry whose route could
  be built is submitted once, in the order of the list, whatever the kernel answered
  before; every other entry adds one error, and so does every rejected request.
\<close>

lemma applyRoutes_logged:
  assumes "applyRoutes lib (logged ops) nh idx vrf entries errs (l, k) = (errs', (l', k'))"
  shows "\<exists>new newerrs. l' = l @ new \<and> errs' = errs @ newerrs
           \<and> map fst new = map RouteReq (rights (map (netlinkRoute lib idx vrf) entries))
           \<and> length newerrs = length (lefts (map (netlinkRoute lib idx vrf) entries))
                               + length (filter rejected new)
           \<and> set (lefts (map (netlinkRoute lib idx vrf) entries)) \<subseteq> set newerrs"
  using assms
proof (induction entries arbitrary: errs l k)
  case Nil
  then show ?case by simp
next
  case (Cons e es)
  show ?case
  proof (cases "netlinkRoute lib idx vrf e")
    case (Inl err)
    with Cons.prems
    have "applyRoutes lib (logged ops) nh idx vrf es (errs @ [err]) (l, k) = (errs', (l', k'))"
      by simp
    from Cons.IH [OF this] obtain new newerrs where
      n: "l' = l @ new" "errs' = (errs @ [err]) @ newerrs"
         "map fst new = map RouteReq (rights (map (netlinkRoute lib idx vrf) es))"
         "length newerrs = length (lefts (map (netlinkRoute lib idx vrf) es))
                           + length (filter rejected new)"
         "set (lefts (map (netlinkRoute lib idx vrf) es)) \<subseteq> set newerrs"
      by blast
    show ?thesis
      using n Inl by (intro exI [of _ new] exI [of _ "err # newerrs"]) auto
  next
    case (Inr r)
    obtain res k1 where ra: "RouteAdd ops k nh r = (res, k1)"
      by (cases "RouteAdd ops k nh r")
    then have lra: "RouteAdd (logged ops) (l, k) nh r = (res, (l @ [(RouteReq r, res)], k1))"
      by (simp add: logged_def)
    let ?w = "Errorf ''fail to add route %s for interface %s on namespace %s: %w''"
    define mine where "mine = (if rejected (RouteReq r, res) then [?w res] else [])"
    have "applyRoutes lib (logged ops) nh idx vrf es (errs @ mine)
            (l @ [(RouteReq r, res)], k1) = (errs', (l', k'))"
      using Cons.prems Inr lra by (cases res) (auto simp: mine_def)
    from Cons.IH [OF this] obtain new newerrs where
      n: "l' = (l @ [(RouteReq r, res)]) @ new" "errs' = (errs @ mine) @ newerrs"
         "map fst new = map RouteReq (rights (map (netlinkRoute lib idx vrf) es))"
         "length newerrs = length (lefts (map (netlinkRoute lib idx vrf) es))
                           + length (filter rejected new)"
         "set (lefts (map (netlinkRoute lib idx vrf) es)) \<subseteq> set newerrs"
      by blast
    show ?thesis
      using n Inr
      by (intro exI [of _ "(RouteReq r, res) # new"] exI [of _ "mine @ newerrs"])
        (auto simp: mine_def)
  qed
qed



lemma netlinkRoute_Inr:
  assumes "netlinkRoute lib idx vrf route = Inr r"
  shows "RouteScope r = Scope route"
    and "RouteTable r = (if vrf > 0 then vrf else Table route)"
    and "LinkIndex r = idx"
    and "CHR ''/'' \<in> set (Destination route)"
    and "\<exists>ip. ParseCIDR lib (Destination route) = Inr (ip, the (Dst r))"
proof -
  from assms obtain ip dst where p: "ParseCIDR lib (Destination route) = Inr (ip, dst)"
    by (auto simp: netlinkRoute_def Let_def split: sum.splits)
  with assms show "RouteScope r = Scope route"
    "RouteTable r = (if vrf > 0 then vrf else Table route)" "LinkIndex r = idx"
    "\<exists>ip. ParseCIDR lib (Destination route) = Inr (ip, the (Dst r))"
    by (auto simp: netlinkRoute_def Let_def split: if_splits)
  from p have "IndexByte (Destination route) (CHR ''/'') \<noteq> None"
    by (auto simp: ParseCIDR_def split: option.splits)
  moreover have "IndexByte s c \<noteq> None \<Longrightarrow> c \<in> set s" for s c
    by (induction s) (auto split: if_splits)
  ultimately show "CHR ''/'' \<in> set (Destination route)" by blast
qed

lemma IndexByte_None_iff: "IndexByte s c = None \<longleftrightarrow> c \<notin> set s"
  by (induction s) auto

lemma netlinkRoute_bare:
  assumes "CHR ''/'' \<notin> set (Destination route)"
  shows "netlinkRoute lib idx vrf route = Inl (ParseError ''CIDR address'' (Destination route))"
proof -
  from assms have "IndexByte (Destination route) (CHR ''/'') = None"
    by (simp add: IndexByte_None_iff)
  then have "ParseCIDR lib (Destination route)
               = Inl (ParseError ''CIDR address'' (Destination route))"
    by (simp add: ParseCIDR_def)
  then show ?thesis by (simp add: netlinkRoute_def Let_def)
qed

text \<open>
  \<open>applyRoutingConfig\<close> on a recording kernel. When the namespace, the handle or the
  link cannot be had, nothing is requested. Otherwise the requests are the routes of
  the sorted entries that could be built, in that order.
\<close>

lemma applyRoutingConfig_logged:
  assumes run: "applyRoutingConfig lib (logged ops) ns ifName routeConfig vrfTable ([], k)
                  = (res, (l, k'))"
  shows "(\<exists>fd nh idx errs.
            GetFromPath ops k ns = Inr fd \<and> NewHandleAt ops k fd = Inr nh
          \<and> LinkByName ops k nh ifName = Inr idx
          \<and> res = errors_Join errs
          \<and> map fst l = map RouteReq
               (rights (map (netlinkRoute lib idx vrfTable) (SortFunc lib routeCmp routeConfig)))
          \<and> length errs
              = length (lefts (map (netlinkRoute lib idx vrfTable)
                                 (SortFunc lib routeCmp routeConfig)))
                + length (filter rejected l)
          \<and> set (lefts (map (netlinkRoute lib idx vrfTable)
                           (SortFunc lib routeCmp routeConfig))) \<subseteq> set errs)
       \<or> (l = [] \<and> res \<noteq> None
          \<and> (\<forall>fd nh idx. \<not> (GetFromPath ops k ns = Inr fd \<and> NewHandleAt ops k fd = Inr nh
                              \<and> LinkByName ops k nh ifName = Inr idx)))"
proof (cases "GetFromPath ops k ns")
  case (Inl e)
  with run show ?thesis by (auto simp: applyRoutingConfig_def logged_def)
next
  case fd: (Inr fd)
  show ?thesis
  proof (cases "NewHandleAt ops k fd")
    case (Inl e)
    with run fd show ?thesis by (auto simp: applyRoutingConfig_def logged_def)
  next
    case nh: (Inr nh)
    show ?thesis
    proof (cases "LinkByName ops k nh ifName")
      case (Inl e)
      with run fd nh show ?thesis by (auto simp: applyRoutingConfig_def logged_def)
    next
      case idx: (Inr idx)
      obtain errs s where a: "applyRoutes lib (logged ops) nh idx vrfTable
           (SortFunc lib routeCmp routeConfig) [] ([], k) = (errs, s)"
        by (cases "applyRoutes lib (logged ops) nh idx vrfTable
           (SortFunc lib routeCmp routeConfig) [] ([], k)")
      with run fd nh idx have r: "res = errors_Join errs" "s = (l, k')"
        by (auto simp: applyRoutingConfig_def logged_def)
      from applyRoutes_logged [OF a [unfolded r(2)]] r(1) fd nh idx
      show ?thesis by auto
    qed
  qed
qed

text \<open>
  Claim C3. Given what \<open>slices.SortFunc\<close> promises, on every kernel and for every route
  list: the routes are submitted to \<open>RouteAdd\<close> in the order of descending scope, so no
  request of scope Universe (0) comes before a request of scope Link (253); and when
  the namespace, the handle and the link are there, the requests are exactly the routes
  of the entries whose destination parses, each one once.
\<close>

theorem link_scope_routes_before_universe:
  assumes sort: "SortFunc_contract (SortFunc lib) routeCmp routeConfig"
    and run: "applyRoutingConfig lib (logged ops) ns ifName routeConfig vrfTable ([], k)
                = (res, (l, k'))"
  shows "sorted_wrt (\<lambda>a b. uint (RouteScope b) \<le> uint (RouteScope a)) (routeRequests l)
       \<and> (\<forall>i j. i < j \<and> j < length (routeRequests l)
                 \<and> RouteScope (routeRequests l ! j) = RT_SCOPE_LINK
               \<longrightarrow> RouteScope (routeRequests l ! i) \<noteq> RT_SCOPE_UNIVERSE)
       \<and> (\<forall>fd nh idx. GetFromPath ops k ns = Inr fd \<and> NewHandleAt ops k fd = Inr nh
                        \<and> LinkByName ops k nh ifName = Inr idx
               \<longrightarrow> mset (routeRequests l)
                     = mset (rights (map (netlinkRoute lib idx vrfTable) routeConfig)))"
proof -
  let ?S = "SortFunc lib routeCmp routeConfig"
  let ?Q = "\<lambda>a b. uint (RouteScope b) \<le> uint (RouteScope a)"
  from sort have ms: "mset ?S = mset routeConfig"
    and so: "sorted_wrt (\<lambda>a b. routeCmp a b \<le> 0) ?S"
    by (simp_all add: SortFunc_contract_def)
  have srt: "sorted_wrt ?Q (rights (map (netlinkRoute lib idx vrfTable) ?S))" for idx
  proof (rule sorted_wrt_rights [OF so])
    fix a b ra rb
    assume "routeCmp a b \<le> 0" "netlinkRoute lib idx vrfTable a = Inr ra"
      "netlinkRoute lib idx vrfTable b = Inr rb"
    then show "uint (RouteScope rb) \<le> uint (RouteScope ra)"
      by (simp add: routeCmp_def netlinkRoute_Inr(1))
  qed
  have 1: "sorted_wrt ?Q (routeRequests l)"
    and 3: "\<forall>fd nh idx. GetFromPath ops k ns = Inr fd \<and> NewHandleAt ops k fd = Inr nh
                        \<and> LinkByName ops k nh ifName = Inr idx
               \<longrightarrow> mset (routeRequests l)
                     = mset (rights (map (netlinkRoute lib idx vrfTable) routeConfig))"
    using applyRoutingConfig_logged [OF run]
  proof -
    from applyRoutingConfig_logged [OF run]
    consider (ok) fd nh idx where "GetFromPath ops k ns = Inr fd" "NewHandleAt ops k fd = Inr nh"
        "LinkByName ops k nh ifName = Inr idx"
        "map fst l = map RouteReq (rights (map (netlinkRoute lib idx vrfTable) ?S))"
      | (fail) "l = []" "\<forall>fd nh idx. \<not> (GetFromPath ops k ns = Inr fd
             \<and> NewHandleAt ops k fd = Inr nh \<and> LinkByName ops k nh ifName = Inr idx)"
      by blast
    then have "sorted_wrt ?Q (routeRequests l)
       \<and> (\<forall>fd nh idx. GetFromPath ops k ns = Inr fd \<and> NewHandleAt ops k fd = Inr nh
                        \<and> LinkByName ops k nh ifName = Inr idx
               \<longrightarrow> mset (routeRequests l)
                     = mset (rights (map (netlinkRoute lib idx vrfTable) routeConfig)))"
    proof cases
      case ok
      from routeRequests_RouteReq [OF ok(4)]
      have rr: "routeRequests l = rights (map (netlinkRoute lib idx vrfTable) ?S)" .
      with srt [of idx] mset_rights_cong [OF ms, of "netlinkRoute lib idx vrfTable"] ok(1-3)
      show ?thesis by auto
    next
      case fail
      from fail(1) have "sorted_wrt ?Q (routeRequests l)" by simp
      with fail(2) show ?thesis by blast
    qed
    then show "sorted_wrt ?Q (routeRequests l)"
      and "\<forall>fd nh idx. GetFromPath ops k ns = Inr fd \<and> NewHandleAt ops k fd = Inr nh
                        \<and> LinkByName ops k nh ifName = Inr idx
               \<longrightarrow> mset (routeRequests l)
                     = mset (rights (map (netlinkRoute lib idx vrfTable) routeConfig))"
      by blast+
  qed
  have 2: "\<forall>i j. i < j \<and> j < length (routeRequests l)
                 \<and> RouteScope (routeRequests l ! j) = RT_SCOPE_LINK
               \<longrightarrow> RouteScope (routeRequests l ! i) \<noteq> RT_SCOPE_UNIVERSE"
  proof (intro allI impI)
    fix i j
    assume a: "i < j \<and> j < length (routeRequests l)
                 \<and> RouteScope (routeRequests l ! j) = RT_SCOPE_LINK"
    with sorted_wrt_nth_less [OF 1, of i j]
    have "uint (RT_SCOPE_LINK) \<le> uint (RouteScope (routeRequests l ! i))" by simp
    then show "RouteScope (routeRequests l ! i) \<noteq> RT_SCOPE_UNIVERSE"
      by (auto simp: RT_SCOPE_LINK_def RT_SCOPE_UNIVERSE_def)
  qed
  from 1 2 3 show ?thesis by blast
qed

text \<open>
  Claim C4. Every route submitted to \<open>RouteAdd\<close> comes from an entry of the
  configuration; with \<open>vrfTable > 0\<close> its table is the VRF's table, whatever table the
  entry carries, and otherwise it is the entry's own table.
\<close>

theorem vrf_table_overrides_route_table:
  assumes sort: "SortFunc_contract (SortFunc lib) routeCmp routeConfig"
    and run: "applyRoutingConfig lib (logged ops) ns ifName routeConfig vrfTable ([], k)
                = (res, (l, k'))"
  shows "\<forall>r \<in> set (routeRequests l).
           (vrfTable > 0 \<longrightarrow> RouteTable r = vrfTable)
         \<and> (\<exists>route \<in> set routeConfig.
               (\<exists>idx. netlinkRoute lib idx vrfTable route = Inr r)
             \<and> (\<not> vrfTable > 0 \<longrightarrow> RouteTable r = Table route))"
proof
  fix r
  assume r: "r \<in> set (routeRequests l)"
  let ?S = "SortFunc lib routeCmp routeConfig"
  from sort have "mset ?S = mset routeConfig" by (simp add: SortFunc_contract_def)
  then have st: "set ?S = set routeConfig" by (rule mset_eq_setD)
  from r have "l \<noteq> []" by auto
  with applyRoutingConfig_logged [OF run] obtain idx where
    "map fst l = map RouteReq (rights (map (netlinkRoute lib idx vrfTable) ?S))"
    by blast
  from routeRequests_RouteReq [OF this] r
  have "r \<in> set (rights (map (netlinkRoute lib idx vrfTable) ?S))" by simp
  then obtain route where route: "route \<in> set ?S" "netlinkRoute lib idx vrfTable route = Inr r"
    by (auto simp: set_rights_map)
  from netlinkRoute_Inr(2) [OF route(2)] route st
  show "(vrfTable > 0 \<longrightarrow> RouteTable r = vrfTable)
         \<and> (\<exists>route \<in> set routeConfig.
               (\<exists>idx. netlinkRoute lib idx vrfTable route = Inr r)
             \<and> (\<not> vrfTable > 0 \<longrightarrow> RouteTable r = Table route))"
    by auto
qed

text \<open>
  Claim C9. For a route whose destination holds no \<open>/\<close>: \<open>net.ParseCIDR\<close> fails, so the
  engine builds no route for it but the parse error; validation raises neither of its two
  destination errors for it when \<open>net.ParseIP\<close> accepts the destination; and a run of
  \<open>applyRoutingConfig\<close> over a list that holds the entry returns an error, which holds
  that parse error once namespace, handle and link are there, while every route that is
  submitted comes from an entry whose destination has a \<open>/\<close>.
\<close>

theorem bare_ip_destination_is_skipped:
  assumes bare: "CHR ''/'' \<notin> set (Destination route)"
  shows "netlinkRoute lib idx vrfTable route
           = Inl (ParseError ''CIDR address'' (Destination route))
       \<and> (Destination route \<noteq> [] \<and> ParseIP lib (Destination route) \<noteq> None \<longrightarrow>
            (\<forall>e \<in> set (validateRoute lib i route).
               e \<noteq> Errorf ''%s.destination: cannot be empty'' None
             \<and> e \<noteq> Errorf ''%s.destination: invalid IP or CIDR format %s'' None))
       \<and> (SortFunc_contract (SortFunc lib) routeCmp routeConfig
          \<and> applyRoutingConfig lib (logged ops) ns ifName routeConfig vrfTable ([], k)
              = (res, (l, k'))
          \<longrightarrow> (route \<in> set routeConfig \<longrightarrow>
                 res \<noteq> None
               \<and> (\<forall>fd nh ix. GetFromPath ops k ns = Inr fd \<and> NewHandleAt ops k fd = Inr nh
                      \<and> LinkByName ops k nh ifName = Inr ix
                    \<longrightarrow> (\<exists>errs. res = Some (JoinError errs)
                           \<and> ParseError ''CIDR address'' (Destination route) \<in> set errs)))
             \<and> (\<forall>r \<in> set (routeRequests l).
                   \<exists>e \<in> set routeConfig. CHR ''/'' \<in> set (Destination e)
                       \<and> (\<exists>ix. netlinkRoute lib ix vrfTable e = Inr r)))"
proof -
  have 1: "netlinkRoute lib idx vrfTable route
           = Inl (ParseError ''CIDR address'' (Destination route))"
    by (rule netlinkRoute_bare [OF bare])
  have 2: "Destination route \<noteq> [] \<and> ParseIP lib (Destination route) \<noteq> None \<longrightarrow>
            (\<forall>e \<in> set (validateRoute lib i route).
               e \<noteq> Errorf ''%s.destination: cannot be empty'' None
             \<and> e \<noteq> Errorf ''%s.destination: invalid IP or CIDR format %s'' None)"
  proof
    assume a: "Destination route \<noteq> [] \<and> ParseIP lib (Destination route) \<noteq> None"
    from bare have "IndexByte (Destination route) (CHR ''/'') = None"
      by (simp add: IndexByte_None_iff)
    then have "ParseCIDR lib (Destination route)
                 = Inl (ParseError ''CIDR address'' (Destination route))"
      by (simp add: ParseCIDR_def)
    with a show "\<forall>e \<in> set (validateRoute lib i route).
                 e \<noteq> Errorf ''%s.destination: cannot be empty'' None
               \<and> e \<noteq> Errorf ''%s.destination: invalid IP or CIDR format %s'' None"
      by (auto simp: validateRoute_def Let_def)
  qed
  have 3: "SortFunc_contract (SortFunc lib) routeCmp routeConfig
          \<and> applyRoutingConfig lib (logged ops) ns ifName routeConfig vrfTable ([], k)
              = (res, (l, k'))
          \<longrightarrow> (route \<in> set routeConfig \<longrightarrow>
                 res \<noteq> None
               \<and> (\<forall>fd nh ix. GetFromPath ops k ns = Inr fd \<and> NewHandleAt ops k fd = Inr nh
                      \<and> LinkByName ops k nh ifName = Inr ix
                    \<longrightarrow> (\<exists>errs. res = Some (JoinError errs)
                           \<and> ParseError ''CIDR address'' (Destination route) \<in> set errs)))
             \<and> (\<forall>r \<in> set (routeRequests l).
                   \<exists>e \<in> set routeConfig. CHR ''/'' \<in> set (Destination e)
                       \<and> (\<exists>ix. netlinkRoute lib ix vrfTable e = Inr r))"
  proof
    assume a: "SortFunc_contract (SortFunc lib) routeCmp routeConfig
          \<and> applyRoutingConfig lib (logged ops) ns ifName routeConfig vrfTable ([], k)
              = (res, (l, k'))"
    let ?S = "SortFunc lib routeCmp routeConfig"
    from a have "mset ?S = mset routeConfig" by (simp add: SortFunc_contract_def)
    then have st: "set ?S = set routeConfig" by (rule mset_eq_setD)
    from a have run: "applyRoutingConfig lib (logged ops) ns ifName routeConfig vrfTable ([], k)
              = (res, (l, k'))" by simp
    have y: "\<forall>r \<in> set (routeRequests l).
                   \<exists>e \<in> set routeConfig. CHR ''/'' \<in> set (Destination e)
                       \<and> (\<exists>ix. netlinkRoute lib ix vrfTable e = Inr r)"
    proof
      fix r
      assume r: "r \<in> set (routeRequests l)"
      then have "l \<noteq> []" by auto
      with applyRoutingConfig_logged [OF run] obtain ix where
        "map fst l = map RouteReq (rights (map (netlinkRoute lib ix vrfTable) ?S))"
        by blast
      from routeRequests_RouteReq [OF this] r
      have "r \<in> set (rights (map (netlinkRoute lib ix vrfTable) ?S))" by simp
      then obtain e where e: "e \<in> set ?S" "netlinkRoute lib ix vrfTable e = Inr r"
        by (auto simp: set_rights_map)
      from netlinkRoute_Inr(4) [OF e(2)] e st
      show "\<exists>e \<in> set routeConfig. CHR ''/'' \<in> set (Destination e)
                       \<and> (\<exists>ix. netlinkRoute lib ix vrfTable e = Inr r)"
        by auto
    qed
    have x: "route \<in> set routeConfig \<longrightarrow>
                 res \<noteq> None
               \<and> (\<forall>fd nh ix. GetFromPath ops k ns = Inr fd \<and> NewHandleAt ops k fd = Inr nh
                      \<and> LinkByName ops k nh ifName = Inr ix
                    \<longrightarrow> (\<exists>errs. res = Some (JoinError errs)
                           \<and> ParseError ''CIDR address'' (Destination route) \<in> set errs))"
    proof
      assume mem: "route \<in> set routeConfig"
      from applyRoutingConfig_logged [OF run]
      consider (ok) fd nh ix errs where "GetFromPath ops k ns = Inr fd"
          "NewHandleAt ops k fd = Inr nh" "LinkByName ops k nh ifName = Inr ix"
          "res = errors_Join errs"
          "set (lefts (map (netlinkRoute lib ix vrfTable) ?S)) \<subseteq> set errs"
        | (fail) "res \<noteq> None" "\<forall>fd nh idx. \<not> (GetFromPath ops k ns = Inr fd
               \<and> NewHandleAt ops k fd = Inr nh \<and> LinkByName ops k nh ifName = Inr idx)"
        by blast
      then show "res \<noteq> None
               \<and> (\<forall>fd nh ix. GetFromPath ops k ns = Inr fd \<and> NewHandleAt ops k fd = Inr nh
                      \<and> LinkByName ops k nh ifName = Inr ix
                    \<longrightarrow> (\<exists>errs. res = Some (JoinError errs)
                           \<and> ParseError ''CIDR address'' (Destination route) \<in> set errs))"
      proof cases
        case ok
        have "ParseError ''CIDR address'' (Destination route)
                \<in> set (lefts (map (netlinkRoute lib ix vrfTable) ?S))"
          using mem st netlinkRoute_bare [OF bare, of lib ix vrfTable]
          by (force simp: lefts_map_conv)
        with ok(5) have "ParseError ''CIDR address'' (Destination route) \<in> set errs" by blast
        with ok(1-4) show ?thesis by (auto simp: errors_Join_def)
      next
        case fail
        then show ?thesis by blast
      qed
    qed
    from x y show "(route \<in> set routeConfig \<longrightarrow>
                 res \<noteq> None
               \<and> (\<forall>fd nh ix. GetFromPath ops k ns = Inr fd \<and> NewHandleAt ops k fd = Inr nh
                      \<and> LinkByName ops k nh ifName = Inr ix
                    \<longrightarrow> (\<exists>errs. res = Some (JoinError errs)
                           \<and> ParseError ''CIDR address'' (Destination route) \<in> set errs)))
             \<and> (\<forall>r \<in> set (routeRequests l).
                   \<exists>e \<in> set routeConfig. CHR ''/'' \<in> set (Destination e)
                       \<and> (\<exists>ix. netlinkRoute lib ix vrfTable e = Inr r))"
      by (rule conjI)
  qed
  from 1 2 3 show ?thesis by (intro conjI)
qed







lemma exampleRoutes_sorted: "SortFunc_contract (SortFunc exampleLib) routeCmp exampleRoutes"
  by code_simp

text \<open>
  The two routes of the comment in \<open>applyRoutingConfig\<close>, the universe route first in the
  input: the link route is submitted first.
\<close>

theorem link_scope_routes_before_universe_witness:
  "map Scope exampleRoutes = [RT_SCOPE_UNIVERSE, RT_SCOPE_LINK]
   \<and> map RouteScope (routeRequests (fst (snd
        (applyRoutingConfig exampleLib (logged exampleKernel) ''/run/netns/pod'' ''eth0''
           exampleRoutes 0 ([], [])))))
     = [RT_SCOPE_LINK, RT_SCOPE_UNIVERSE]
   \<and> sorted_wrt (\<lambda>a b. uint (RouteScope b) \<le> uint (RouteScope a))
       (routeRequests (fst (snd
        (applyRoutingConfig exampleLib (logged exampleKernel) ''/run/netns/pod'' ''eth0''
           exampleRoutes 0 ([], [])))))"
proof -
  let ?X = "applyRoutingConfig exampleLib (logged exampleKernel) ''/run/netns/pod'' ''eth0''
           exampleRoutes 0 ([], [])"
  have a: "map Scope exampleRoutes = [RT_SCOPE_UNIVERSE, RT_SCOPE_LINK]" by code_simp
  have b: "map RouteScope (routeRequests (fst (snd ?X))) = [RT_SCOPE_LINK, RT_SCOPE_UNIVERSE]"
    by code_simp
  have c: "?X = (fst ?X, (fst (snd ?X), snd (snd ?X)))" by simp
  from link_scope_routes_before_universe [OF exampleRoutes_sorted c] a b
  show ?thesis by blast
qed

lemma exampleRoutes_sorted': "SortFunc_contract (SortFunc exampleLib) routeCmp
    (exampleRoutes @ [\<lparr>Destination = ''192.168.7.0/24'', Gateway = ''10.0.5.1'', Source = [],
                        Scope = RT_SCOPE_UNIVERSE, Table = 100\<rparr>])"
  by code_simp

text \<open>
  Three routes with the tables 0, 0 and 100: with the VRF table 1284 all three are
  submitted for table 1284, with no VRF each for its own table.
\<close>

theorem vrf_table_overrides_route_table_witness:
  "map RouteTable (routeRequests (fst (snd
      (applyRoutingConfig exampleLib (logged exampleKernel) ''/run/netns/pod'' ''eth0''
         (exampleRoutes @ [\<lparr>Destination = ''192.168.7.0/24'', Gateway = ''10.0.5.1'',
                             Source = [], Scope = RT_SCOPE_UNIVERSE, Table = 100\<rparr>])
         1284 ([], []))))) = [1284, 1284, 1284]
   \<and> map RouteTable (routeRequests (fst (snd
      (applyRoutingConfig exampleLib (logged exampleKernel) ''/run/netns/pod'' ''eth0''
         (exampleRoutes @ [\<lparr>Destination = ''192.168.7.0/24'', Gateway = ''10.0.5.1'',
                             Source = [], Scope = RT_SCOPE_UNIVERSE, Table = 100\<rparr>])
         0 ([], []))))) = [0, 0, 100]
   \<and> (\<forall>r \<in> set (routeRequests (fst (snd
      (applyRoutingConfig exampleLib (logged exampleKernel) ''/run/netns/pod'' ''eth0''
         (exampleRoutes @ [\<lparr>Destination = ''192.168.7.0/24'', Gateway = ''10.0.5.1'',
                             Source = [], Scope = RT_SCOPE_UNIVERSE, Table = 100\<rparr>])
         1284 ([], []))))). RouteTable r = 1284) = True"
proof -
  let ?cfg = "exampleRoutes @ [\<lparr>Destination = ''192.168.7.0/24'', Gateway = ''10.0.5.1'',
                             Source = [], Scope = RT_SCOPE_UNIVERSE, Table = 100\<rparr>]"
  let ?X = "applyRoutingConfig exampleLib (logged exampleKernel) ''/run/netns/pod'' ''eth0''
         ?cfg 1284 ([], [])"
  let ?Y = "applyRoutingConfig exampleLib (logged exampleKernel) ''/run/netns/pod'' ''eth0''
         ?cfg 0 ([], [])"
  have a: "map RouteTable (routeRequests (fst (snd ?X))) = [1284, 1284, 1284]" by code_simp
  have b: "map RouteTable (routeRequests (fst (snd ?Y))) = [0, 0, 100]" by code_simp
  have c: "?X = (fst ?X, (fst (snd ?X), snd (snd ?X)))" by simp
  from vrf_table_overrides_route_table [OF exampleRoutes_sorted' c]
  have "\<forall>r \<in> set (routeRequests (fst (snd ?X))). RouteTable r = 1284" by simp
  with a b show ?thesis by simp
qed

text \<open>
  The destination \<open>10.0.5.1\<close>: validation finds nothing wrong with the route, the engine
  returns the parse error and submits nothing.
\<close>

theorem bare_ip_destination_is_skipped_witness:
  "CHR ''/'' \<notin> set (Destination bareRoute)
   \<and> ParseIP exampleLib (Destination bareRoute) = Some (Addr4 [10, 0, 5, 1])
   \<and> validateRoutes exampleLib [bareRoute] = []
   \<and> netlinkRoute exampleLib 2 0 bareRoute = Inl (ParseError ''CIDR address'' ''10.0.5.1'')
   \<and> applyRoutingConfig exampleLib (logged exampleKernel) ''/run/netns/pod'' ''eth0''
       [bareRoute] 0 ([], [])
     = (Some (JoinError [ParseError ''CIDR address'' ''10.0.5.1'']), ([], []))"
proof -
  have a: "CHR ''/'' \<notin> set (Destination bareRoute)" by code_simp
  have b: "ParseIP exampleLib (Destination bareRoute) = Some (Addr4 [10, 0, 5, 1])"
    by code_simp
  have c: "validateRoutes exampleLib [bareRoute] = []" by code_simp
  have d: "applyRoutingConfig exampleLib (logged exampleKernel) ''/run/netns/pod'' ''eth0''
       [bareRoute] 0 ([], [])
     = (Some (JoinError [ParseError ''CIDR address'' ''10.0.5.1'']), ([], []))"
    by code_simp
  have e: "Destination bareRoute = ''10.0.5.1''" by code_simp
  have n: "netlinkRoute exampleLib 2 0 bareRoute = Inl (ParseError ''CIDR address'' ''10.0.5.1'')"
    using bare_ip_destination_is_skipped [OF a, of exampleLib 2 0, THEN conjunct1] e by simp
  from a b c d n show ?thesis by blast
qed


section \<open>Properties of the VRF sysctl step\<close>

text \<open>
  What a call leaves of the thread's state, whether it fails or not.
\<close>

lemma case_invoke:
  "(case invoke fail a s of (r, s') \<Rightarrow> f r s') = f (fail s a) (snd (invoke fail a s))"
  by (simp add: invoke_def Let_def split: option.split)

lemma fst_invoke: "fst (invoke fail a s) = fail s a"
  by (simp add: invoke_def Let_def split: option.split)

lemma calls_invoke: "calls (snd (invoke fail a s)) = calls s @ [a]"
  by (cases a) (simp_all add: invoke_def Let_def split: option.split)

lemma calls_perform: "calls (perform a s) = calls s @ [a]"
  by (cases a) (simp_all add: perform_def)

lemma lockCount_invoke:
  "lockCount (snd (invoke fail NetnsGet s)) = lockCount s"
  "lockCount (snd (invoke fail (NetnsSet h) s)) = lockCount s"
  "lockCount (snd (invoke fail (SetSysctl n v) s)) = lockCount s"
  "lockCount (snd (invoke fail (NetnsClose h) s)) = lockCount s"
  by (simp_all add: invoke_def Let_def split: option.split)

lemma lockCount_perform:
  "lockCount (perform LockOSThread s) = Suc (lockCount s)"
  "lockCount (perform UnlockOSThread s) = lockCount s - 1"
  by (simp_all add: perform_def)

lemma ambientNs_invoke:
  "ambientNs (snd (invoke fail NetnsGet s)) = ambientNs s"
  "ambientNs (snd (invoke fail (NetnsSet h) s))
     = (if fail s (NetnsSet h) = None then h else ambientNs s)"
  "ambientNs (snd (invoke fail (SetSysctl n v) s)) = ambientNs s"
  "ambientNs (snd (invoke fail (NetnsClose h) s)) = ambientNs s"
  by (simp_all add: invoke_def Let_def split: option.split)

lemma ambientNs_perform:
  "ambientNs (perform LockOSThread s) = ambientNs s"
  "ambientNs (perform UnlockOSThread s) = ambientNs s"
  by (simp_all add: perform_def)

lemma sysctlWrites_invoke:
  "sysctlWrites (snd (invoke fail NetnsGet s)) = sysctlWrites s"
  "sysctlWrites (snd (invoke fail (NetnsSet h) s)) = sysctlWrites s"
  "sysctlWrites (snd (invoke fail (SetSysctl n v) s))
     = (if fail s (SetSysctl n v) = None then sysctlWrites s @ [(ambientNs s, n, v)]
        else sysctlWrites s)"
  "sysctlWrites (snd (invoke fail (NetnsClose h) s)) = sysctlWrites s"
  by (simp_all add: invoke_def Let_def split: option.split)

lemma sysctlWrites_perform:
  "sysctlWrites (perform LockOSThread s) = sysctlWrites s"
  "sysctlWrites (perform UnlockOSThread s) = sysctlWrites s"
  by (simp_all add: perform_def)

lemmas step_simps = case_invoke fst_invoke calls_invoke calls_perform lockCount_invoke
  lockCount_perform ambientNs_invoke ambientNs_perform sysctlWrites_invoke sysctlWrites_perform

lemma enableVRFSysctls_lockCount:
  "lockCount (snd (enableVRFSysctls fail fd s)) = lockCount s"
  by (simp add: enableVRFSysctls_def Let_def step_simps split: option.split)

lemma enableVRFSysctls_calls:
  "\<exists>cs. calls (snd (enableVRFSysctls fail fd s)) = calls s @ cs
     \<and> cs \<in> {[LockOSThread, NetnsGet, UnlockOSThread],
              [LockOSThread, NetnsGet, NetnsSet fd, NetnsClose (ambientNs s), UnlockOSThread],
              [LockOSThread, NetnsGet, NetnsSet fd,
               SetSysctl ''net/ipv4/tcp_l3mdev_accept'' 1,
               NetnsSet (ambientNs s), NetnsClose (ambientNs s), UnlockOSThread],
              [LockOSThread, NetnsGet, NetnsSet fd,
               SetSysctl ''net/ipv4/tcp_l3mdev_accept'' 1,
               SetSysctl ''net/ipv4/udp_l3mdev_accept'' 1,
               NetnsSet (ambientNs s), NetnsClose (ambientNs s), UnlockOSThread]}"
  by (simp add: enableVRFSysctls_def Let_def step_simps split: option.split)

lemma enableVRFSysctls_ambientNs:
  "ambientNs (snd (enableVRFSysctls fail fd s)) = ambientNs s
   \<or> (ambientNs (snd (enableVRFSysctls fail fd s)) = fd
      \<and> (\<exists>s''. fail s'' (NetnsSet (ambientNs s)) \<noteq> None))"
  by (auto simp add: enableVRFSysctls_def Let_def step_simps split: option.split)

lemma enableVRFSysctls_writes:
  "fst (enableVRFSysctls fail fd s) = None \<Longrightarrow>
     sysctlWrites (snd (enableVRFSysctls fail fd s))
       = sysctlWrites s @ [(fd, ''net/ipv4/tcp_l3mdev_accept'', 1),
                           (fd, ''net/ipv4/udp_l3mdev_accept'', 1)]"
  by (auto simp add: enableVRFSysctls_def Let_def step_simps split: option.split option.split_asm)

text \<open>
  Claim C6, as the code has it. On every exit path, whatever fails: the pin is released
  (\<open>UnlockOSThread\<close> is the last call and the count of pins is what it was); the calls are
  one of four sequences, and in those where the switch to the container's namespace
  happened, \<open>netns.Set(origns)\<close> is called before the handle is closed and the pin
  released; the thread ends in its original namespace unless that restoring call fails,
  in which case it is left in the container's namespace; and a \<open>nil\<close> result means both
  sysctls were written in the container's namespace. No call of the sequence takes a
  lock.
\<close>

theorem vrf_sysctls_unpin_and_restore:
  "lockCount (snd (enableVRFSysctls fail fd s)) = lockCount s
   \<and> (\<exists>cs. calls (snd (enableVRFSysctls fail fd s)) = calls s @ cs
        \<and> cs \<in> {[LockOSThread, NetnsGet, UnlockOSThread],
                 [LockOSThread, NetnsGet, NetnsSet fd, NetnsClose (ambientNs s), UnlockOSThread],
                 [LockOSThread, NetnsGet, NetnsSet fd,
                  SetSysctl ''net/ipv4/tcp_l3mdev_accept'' 1,
                  NetnsSet (ambientNs s), NetnsClose (ambientNs s), UnlockOSThread],
                 [LockOSThread, NetnsGet, NetnsSet fd,
                  SetSysctl ''net/ipv4/tcp_l3mdev_accept'' 1,
                  SetSysctl ''net/ipv4/udp_l3mdev_accept'' 1,
                  NetnsSet (ambientNs s), NetnsClose (ambientNs s), UnlockOSThread]})
   \<and> (ambientNs (snd (enableVRFSysctls fail fd s)) = ambientNs s
      \<or> (ambientNs (snd (enableVRFSysctls fail fd s)) = fd
         \<and> (\<exists>s''. fail s'' (NetnsSet (ambientNs s)) \<noteq> None)))
   \<and> ((\<forall>s''. fail s'' (NetnsSet (ambientNs s)) = None)
        \<longrightarrow> ambientNs (snd (enableVRFSysctls fail fd s)) = ambientNs s)
   \<and> (fst (enableVRFSysctls fail fd s) = None
        \<longrightarrow> sysctlWrites (snd (enableVRFSysctls fail fd s))
             = sysctlWrites s @ [(fd, ''net/ipv4/tcp_l3mdev_accept'', 1),
                                 (fd, ''net/ipv4/udp_l3mdev_accept'', 1)])"
proof -
  have 3: "ambientNs (snd (enableVRFSysctls fail fd s)) = ambientNs s
      \<or> (ambientNs (snd (enableVRFSysctls fail fd s)) = fd
         \<and> (\<exists>s''. fail s'' (NetnsSet (ambientNs s)) \<noteq> None))"
    by (rule enableVRFSysctls_ambientNs)
  then have 4: "(\<forall>s''. fail s'' (NetnsSet (ambientNs s)) = None)
        \<longrightarrow> ambientNs (snd (enableVRFSysctls fail fd s)) = ambientNs s"
    by auto
  have 5: "fst (enableVRFSysctls fail fd s) = None
        \<longrightarrow> sysctlWrites (snd (enableVRFSysctls fail fd s))
             = sysctlWrites s @ [(fd, ''net/ipv4/tcp_l3mdev_accept'', 1),
                                 (fd, ''net/ipv4/udp_l3mdev_accept'', 1)]"
    using enableVRFSysctls_writes [of fail fd s] by (rule impI)
  from enableVRFSysctls_lockCount [of fail fd s] enableVRFSysctls_calls [of fail fd s] 3 4 5
  show ?thesis by (intro conjI)
qed

text \<open>
  The second sysctl write fails: the error is returned, the thread is back in
  namespace 1 and not pinned.
\<close>

theorem vrf_sysctls_unpin_and_restore_witness:
  "fst (enableVRFSysctls udpFails 7 hostThread)
     = Some (Errorf ''failed to set udp_l3mdev_accept: %w'' (Some EINVAL))
   \<and> lockCount (snd (enableVRFSysctls udpFails 7 hostThread)) = lockCount hostThread
   \<and> ambientNs (snd (enableVRFSysctls udpFails 7 hostThread)) = ambientNs hostThread
   \<and> calls (snd (enableVRFSysctls udpFails 7 hostThread))
      = [LockOSThread, NetnsGet, NetnsSet 7,
         SetSysctl ''net/ipv4/tcp_l3mdev_accept'' 1,
         SetSysctl ''net/ipv4/udp_l3mdev_accept'' 1,
         NetnsSet 1, NetnsClose 1, UnlockOSThread]
   \<and> fst (enableVRFSysctls noFailure 7 hostThread) = None
   \<and> sysctlWrites (snd (enableVRFSysctls noFailure 7 hostThread))
      = [(7, ''net/ipv4/tcp_l3mdev_accept'', 1), (7, ''net/ipv4/udp_l3mdev_accept'', 1)]"
proof -
  have a: "fst (enableVRFSysctls udpFails 7 hostThread)
     = Some (Errorf ''failed to set udp_l3mdev_accept: %w'' (Some EINVAL))"
    by code_simp
  have b: "calls (snd (enableVRFSysctls udpFails 7 hostThread))
      = [LockOSThread, NetnsGet, NetnsSet 7,
         SetSysctl ''net/ipv4/tcp_l3mdev_accept'' 1,
         SetSysctl ''net/ipv4/udp_l3mdev_accept'' 1,
         NetnsSet 1, NetnsClose 1, UnlockOSThread]"
    by code_simp
  have c: "fst (enableVRFSysctls noFailure 7 hostThread) = None" by code_simp
  have d: "\<forall>s''. udpFails s'' (NetnsSet (ambientNs hostThread)) = None"
    by (simp add: udpFails_def)
  have e: "sysctlWrites hostThread = []" by (simp add: hostThread_def)
  note t = vrf_sysctls_unpin_and_restore [of udpFails 7 hostThread]
  note u = vrf_sysctls_unpin_and_restore [of noFailure 7 hostThread]
  from t have 1: "lockCount (snd (enableVRFSysctls udpFails 7 hostThread)) = lockCount hostThread"
    by (rule conjunct1)
  from t d have 2: "ambientNs (snd (enableVRFSysctls udpFails 7 hostThread)) = ambientNs hostThread"
    by auto
  from u c e have 3: "sysctlWrites (snd (enableVRFSysctls noFailure 7 hostThread))
      = [(7, ''net/ipv4/tcp_l3mdev_accept'', 1), (7, ''net/ipv4/udp_l3mdev_accept'', 1)]"
    by simp
  from a 1 2 b c 3 show ?thesis by (intro conjI)
qed

text \<open>
  Claim C6 as the specification words it fails twice. Two invocations can overlap: the
  schedule \<open>overlappingSchedule\<close> is an interleaving of the calls of two invocations
  in which goroutine 2 switches namespace while goroutine 1 is between its switch and
  its restore. And the namespace is not restored on every exit path: when the restoring
  \<open>netns.Set\<close> fails, its error is dropped, the function returns \<open>nil\<close>, and the thread
  is left in namespace 7, unpinned.
\<close>

theorem vrf_sysctls_counterexample:
  "isSchedule (calls (snd (enableVRFSysctls noFailure 7 hostThread)))
      (calls (snd (enableVRFSysctls noFailure 8 hostThread))) overlappingSchedule
   \<and> \<not> exclusive exampleTarget None overlappingSchedule
   \<and> ambientNs hostThread = 1
   \<and> fst (enableVRFSysctls restoreFails 7 hostThread) = None
   \<and> ambientNs (snd (enableVRFSysctls restoreFails 7 hostThread)) = 7
   \<and> lockCount (snd (enableVRFSysctls restoreFails 7 hostThread)) = 0"
  by code_simp

end
